theory Spec2Isabelle
  imports Main "HOL-Library.AList" "HOL-Library.Multiset" "HOL-Library.Sublist"
begin

section \<open>Collaborators of the render manager\<close>

text \<open>
  The render manager of \<^verbatim>\<open>render-manager.service.ts\<close> keeps a table of render units and
  calls into objects it does not implement: engines, scenes, components, rxjs subjects,
  the document registry and the render units themselves. Objects are named by the number
  they were allocated under, so that \<^verbatim>\<open>===\<close> on two objects is equality of their names.
  A call into a collaborator is recorded, in order, together with the table as it is at
  that moment; the code that runs inside the call is taken not to call back into the
  manager.
\<close>

text \<open>
  Modelled from the spec: the enumeration \<^verbatim>\<open>UniverInstanceType\<close> is declared in
  \<^verbatim>\<open>@univerjs/core\<close>, which is not among the sources; the spec calls it a closed
  enumeration of document-type tags.
\<close>

datatype UniverInstanceType =
  UNIVER_UNKNOWN | UNIVER_DOC | UNIVER_SHEET | UNIVER_SLIDE | UNIVER_PROJECT | UNRECOGNIZED

datatype Engine = Engine nat

datatype Scene = Scene nat

datatype Component = Component nat

text \<open>A module descriptor is opaque to the manager; it is only compared by identity.\<close>

type_synonym Dependency = nat

text \<open>
  \<^verbatim>\<open>IRender\<close>: the fields the manager reads. \<open>isRenderUnit\<close> is the outcome of
  \<^verbatim>\<open>instanceof RenderUnit\<close>, \<open>hasDispose\<close> the outcome of
  \<^verbatim>\<open>typeof thing.dispose === 'function'\<close>, and \<open>injected\<close> the module descriptors the
  unit's own injector holds, which is what \<^verbatim>\<open>with\<close> looks up.
\<close>

record IRender =
  unitId :: string
  type :: UniverInstanceType
  engine :: Engine
  scene :: Scene
  mainComponent :: "Component option"
  components :: "(string \<times> Component) list"
  isMainScene :: bool
  isThumbNail :: bool
  isRenderUnit :: bool
  hasDispose :: bool
  injected :: "Dependency list"

text \<open>
  A JavaScript \<^verbatim>\<open>Map\<close> with string keys: the entries in insertion order. An entry holds
  the renderer as it is at that moment; when the manager changes a renderer that is in the
  table, the change is written to its entry.
\<close>

type_synonym RenderMap = "(string \<times> IRender) list"

text \<open>
  Modelled from the spec: the document registry (\<^verbatim>\<open>IUniverInstanceService\<close>) and the document
  models it returns are not among the sources. The spec gives the registry the lookups
  \<^verbatim>\<open>getUnit\<close>, \<^verbatim>\<open>getUnitType\<close> and \<^verbatim>\<open>getCurrentUnitForType\<close>, and lets the document's own
  component system populate the components of a full render unit.
\<close>

record UnitModel =
  um_type :: UniverInstanceType
  um_mainComponent :: "Component option"
  um_components :: "(string \<times> Component) list"

record IUniverInstanceService =
  getUnit :: "string \<Rightarrow> UnitModel option"
  getCurrentUnitForType :: "UniverInstanceType \<Rightarrow> string option"

definition getUnitType :: "IUniverInstanceService \<Rightarrow> string \<Rightarrow> UniverInstanceType" where
  "getUnitType svc uid = (case getUnit svc uid of None \<Rightarrow> UNRECOGNIZED | Some unit \<Rightarrow> um_type unit)"

section \<open>The manager's state\<close>

datatype Subject = CurrentRender | CreateRender | RenderCreated | RenderDisposed

datatype Payload = PString string | PRender IRender

text \<open>
  Every call the manager makes into a collaborator. A call on a subject carries whether
  the subject took it: an rxjs \<^verbatim>\<open>Subject\<close> that has completed drops \<^verbatim>\<open>next\<close> and
  \<^verbatim>\<open>complete\<close>.
\<close>

datatype Effect =
    NewEngine Engine
  | NewScene Scene string Engine nat nat
  | CreateInstance IRender
  | AddRenderDependencies IRender "Dependency list"
  | ComponentDispose Component
  | SceneDispose Scene
  | ItemDispose IRender
  | EngineDispose Engine
  | Next Subject Payload bool
  | Complete Subject bool

text \<open>
  The array object that \<^verbatim>\<open>_renderDependencies\<close> holds for a type is created only by
  \<^verbatim>\<open>set(type, [])\<close> when the type has none, and leaves the map only through \<^verbatim>\<open>clear()\<close>.
  So it is named by the number of \<^verbatim>\<open>clear()\<close> calls before its creation and the type.
  A disposal handle keeps the array it captured, also after the map dropped it.
\<close>

datatype ArrayRef = ArrayRef nat UniverInstanceType

text \<open>
  \<open>renderMapRef\<close> is the reference in the field \<^verbatim>\<open>_renderMap\<close> and \<open>mapStore\<close> the
  \<^verbatim>\<open>Map\<close> objects by reference; \<open>registered\<close> and \<open>clears\<close> are the keys of
  \<^verbatim>\<open>_renderDependencies\<close> and the count of its \<^verbatim>\<open>clear()\<close> calls, \<open>arrayStore\<close> the
  arrays by reference; \<open>isStopped\<close> is the flag of each subject; \<open>nextObj\<close> is the number
  of objects allocated so far; \<open>trace\<close> lists the calls into collaborators in order, each
  with the table that code running inside the call would read.
\<close>

record Manager =
  disposed :: bool
  currentUnitId :: string
  renderMapRef :: nat
  mapStore :: "nat \<Rightarrow> RenderMap"
  registered :: "UniverInstanceType \<Rightarrow> bool"
  clears :: nat
  arrayStore :: "ArrayRef \<Rightarrow> Dependency list"
  isStopped :: "Subject \<Rightarrow> bool"
  nextObj :: nat
  trace :: "(Effect \<times> RenderMap) list"

definition renderMap :: "Manager \<Rightarrow> RenderMap" where
  "renderMap s = mapStore s (renderMapRef s)"

definition renderMap_update :: "(RenderMap \<Rightarrow> RenderMap) \<Rightarrow> Manager \<Rightarrow> Manager" where
  "renderMap_update f s = s\<lparr>mapStore := (mapStore s)(renderMapRef s := f (renderMap s))\<rparr>"

definition call :: "Effect \<Rightarrow> Manager \<Rightarrow> Manager" where
  "call e s = s\<lparr>trace := trace s @ [(e, renderMap s)]\<rparr>"

text \<open>A manager right after its constructor.\<close>

definition newManager :: Manager where
  "newManager = \<lparr>disposed = False, currentUnitId = '''', renderMapRef = 0,
     mapStore = (\<lambda>_. []), registered = (\<lambda>_. False), clears = 0, arrayStore = (\<lambda>_. []),
     isStopped = (\<lambda>_. False), nextObj = 1, trace = []\<rparr>"

subsection \<open>rxjs subjects\<close>

definition subject_next :: "Subject \<Rightarrow> Payload \<Rightarrow> Manager \<Rightarrow> Manager" where
  "subject_next sub v s = call (Next sub v (\<not> isStopped s sub)) s"

definition subject_complete :: "Subject \<Rightarrow> Manager \<Rightarrow> Manager" where
  "subject_complete sub s =
     (call (Complete sub (\<not> isStopped s sub)) s)\<lparr>isStopped := (isStopped s)(sub := True)\<rparr>"

subsection \<open>Engines, scenes and render units\<close>

definition new_Engine :: "Manager \<Rightarrow> Engine \<times> Manager" where
  "new_Engine s =
     (let e = Engine (nextObj s)
      in (e, call (NewEngine e) (s\<lparr>nextObj := Suc (nextObj s)\<rparr>)))"

definition new_Scene :: "string \<Rightarrow> Engine \<Rightarrow> nat \<Rightarrow> nat \<Rightarrow> Manager \<Rightarrow> Scene \<times> Manager" where
  "new_Scene name eng width height s =
     (let sc = Scene (nextObj s)
      in (sc, call (NewScene sc name eng width height) (s\<lparr>nextObj := Suc (nextObj s)\<rparr>)))"

text \<open>
  Modelled from the spec: the class \<^verbatim>\<open>RenderUnit\<close> (\<^verbatim>\<open>render-unit.ts\<close>) is not among the
  sources. The spec has the manager build a fully typed unit whose \<^verbatim>\<open>mainComponent\<close> and
  \<^verbatim>\<open>components\<close> come from the document, has injection add the modules to the unit
  (additive, in order, duplicates kept), and has a capability lookup that answers with the
  capability or with absent.
\<close>

definition new_RenderUnit :: "string \<Rightarrow> UnitModel \<Rightarrow> Engine \<Rightarrow> Scene \<Rightarrow> bool \<Rightarrow> IRender" where
  "new_RenderUnit uid unit eng sc isMain =
     \<lparr>unitId = uid, type = um_type unit, engine = eng, scene = sc,
      mainComponent = um_mainComponent unit, components = um_components unit,
      isMainScene = isMain, isThumbNail = False, isRenderUnit = True,
      hasDispose = True, injected = []\<rparr>"

definition createInstance_RenderUnit ::
  "string \<Rightarrow> UnitModel \<Rightarrow> Engine \<Rightarrow> Scene \<Rightarrow> bool \<Rightarrow> Manager \<Rightarrow> IRender \<times> Manager" where
  "createInstance_RenderUnit uid unit eng sc isMain s =
     (let r = new_RenderUnit uid unit eng sc isMain in (r, call (CreateInstance r) s))"

definition addRenderDependencies ::
  "IRender \<Rightarrow> Dependency list \<Rightarrow> Manager \<Rightarrow> IRender \<times> Manager" where
  "addRenderDependencies renderer deps s =
     (renderer\<lparr>injected := injected renderer @ deps\<rparr>,
      call (AddRenderDependencies renderer deps) s)"

definition with' :: "IRender \<Rightarrow> Dependency \<Rightarrow> Dependency option" where
  "with' renderer dependency =
     (if dependency \<in> set (injected renderer) then Some dependency else None)"

section \<open>RenderManagerService\<close>

text \<open>
  The methods of the class, each taking the manager's state and returning the new one.
  The private methods keep their names without the leading underscore; \<open>createRender_priv\<close>
  is \<^verbatim>\<open>_createRender\<close>.
\<close>

definition DEFAULT_SCENE_SIZE :: "nat \<times> nat" where
  "DEFAULT_SCENE_SIZE = (1500, 1000)"

definition SCENE_NAMESPACE :: string where
  "SCENE_NAMESPACE = ''_UNIVER_SCENE_''"

definition isDisposable :: "IRender \<Rightarrow> bool" where
  "isDisposable thing = hasDispose thing"

definition getRenderById :: "Manager \<Rightarrow> string \<Rightarrow> IRender option" where
  "getRenderById s uid = map_of (renderMap s) uid"

definition has :: "Manager \<Rightarrow> string \<Rightarrow> bool" where
  "has s uid = (uid \<in> fst ` set (renderMap s))"

text \<open>\<^verbatim>\<open>getRenderAll\<close> hands out the reference held in \<^verbatim>\<open>_renderMap\<close>.\<close>

definition getRenderAll :: "Manager \<Rightarrow> nat" where
  "getRenderAll s = renderMapRef s"

definition getCurrent :: "Manager \<Rightarrow> IRender option" where
  "getCurrent s = map_of (renderMap s) (currentUnitId s)"

definition getFirst :: "Manager \<Rightarrow> IRender option" where
  "getFirst s = (case mapStore s (getRenderAll s) of [] \<Rightarrow> None | (_, r) # _ \<Rightarrow> Some r)"

definition setCurrent :: "string \<Rightarrow> Manager \<Rightarrow> Manager" where
  "setCurrent uid s = subject_next CurrentRender (PString uid) (s\<lparr>currentUnitId := uid\<rparr>)"

definition create :: "string \<Rightarrow> Manager \<Rightarrow> Manager" where
  "create uid s = subject_next CreateRender (PString uid) s"

definition getRenderControllersForType :: "Manager \<Rightarrow> UniverInstanceType \<Rightarrow> Dependency list" where
  "getRenderControllersForType s t =
     (if registered s t then arrayStore s (ArrayRef (clears s) t) else [])"

definition getAllRenderersOfType :: "Manager \<Rightarrow> UniverInstanceType \<Rightarrow> IRender list" where
  "getAllRenderersOfType s t = map snd (filter (\<lambda>(_, render). type render = t) (renderMap s))"

definition getCurrentTypeOfRenderer ::
  "IUniverInstanceService \<Rightarrow> Manager \<Rightarrow> UniverInstanceType \<Rightarrow> IRender option" where
  "getCurrentTypeOfRenderer svc s t =
     (case getCurrentUnitForType svc t of None \<Rightarrow> None | Some uid \<Rightarrow> getRenderById s uid)"

definition withCurrentTypeOfUnit ::
  "IUniverInstanceService \<Rightarrow> Manager \<Rightarrow> UniverInstanceType \<Rightarrow> Dependency \<Rightarrow> Dependency option" where
  "withCurrentTypeOfUnit svc s t d =
     (case getCurrentUnitForType svc t of
        None \<Rightarrow> None
      | Some uid \<Rightarrow> (case getRenderById s uid of None \<Rightarrow> None | Some r \<Rightarrow> with' r d))"

definition tryAddRenderDependencies ::
  "IRender \<Rightarrow> Dependency list \<Rightarrow> Manager \<Rightarrow> IRender \<times> Manager" where
  "tryAddRenderDependencies renderer deps s =
     (if isRenderUnit renderer then addRenderDependencies renderer deps s else (renderer, s))"

fun disposeItem :: "IRender option \<Rightarrow> bool \<Rightarrow> Manager \<Rightarrow> Manager" where
  "disposeItem None shouldDestroyEngine s = s"
| "disposeItem (Some item) shouldDestroyEngine s =
     (let s1 = fold (\<lambda>(_, component). call (ComponentDispose component)) (components item) s;
          s2 = call (SceneDispose (scene item)) s1;
          s3 = (if isDisposable item then call (ItemDispose item) s2 else s2);
          s4 = (if shouldDestroyEngine then call (EngineDispose (engine item)) s3 else s3)
      in subject_next RenderDisposed (PString (unitId item)) s4)"

definition addRenderUnit :: "string \<Rightarrow> IRender \<Rightarrow> Manager \<Rightarrow> Manager" where
  "addRenderUnit uid item s = renderMap_update (AList.update uid item) s"

definition addRender :: "string \<Rightarrow> IRender \<Rightarrow> Manager \<Rightarrow> Manager" where
  "addRender uid item s = addRenderUnit uid item s"

text \<open>The object literal in the else-branch of \<^verbatim>\<open>_createRender\<close> (``for slide pages'').\<close>

definition thumbnail :: "string \<Rightarrow> Engine \<Rightarrow> Scene \<Rightarrow> bool \<Rightarrow> IRender" where
  "thumbnail uid eng sc isMain =
     \<lparr>unitId = uid, type = UNIVER_SLIDE, engine = eng, scene = sc, mainComponent = None,
      components = [], isMainScene = isMain, isThumbNail = True, isRenderUnit = False,
      hasDispose = False, injected = []\<rparr>"

definition createRender_priv ::
  "IUniverInstanceService \<Rightarrow> string \<Rightarrow> Engine \<Rightarrow> bool \<Rightarrow> Manager \<Rightarrow> IRender \<times> Manager" where
  "createRender_priv svc uid eng isMain s =
     (let existItem = getRenderById s uid;
          shouldDestroyEngine = (case existItem of None \<Rightarrow> True | Some e \<Rightarrow> engine e \<noteq> eng);
          s1 = disposeItem existItem shouldDestroyEngine s;
          (width, height) = DEFAULT_SCENE_SIZE;
          (sc, s2) = new_Scene (SCENE_NAMESPACE @ uid) eng width height s1;
          (renderUnit, s3) =
            (case getUnit svc uid of
               Some unit \<Rightarrow>
                 (let t = getUnitType svc uid;
                      ctors = getRenderControllersForType s2 t;
                      (r, s') = createInstance_RenderUnit uid unit eng sc isMain s2
                  in tryAddRenderDependencies r ctors s')
             | None \<Rightarrow> (thumbnail uid eng sc isMain, s2))
      in (renderUnit, addRenderUnit uid renderUnit s3))"

definition createRender :: "IUniverInstanceService \<Rightarrow> string \<Rightarrow> Manager \<Rightarrow> IRender \<times> Manager" where
  "createRender svc uid s =
     (let (eng, s1) = new_Engine s;
          (renderer, s2) = createRender_priv svc uid eng True s1
      in (renderer, subject_next RenderCreated (PRender renderer) s2))"

definition removeRender :: "string \<Rightarrow> Manager \<Rightarrow> Manager" where
  "removeRender uid s =
     (let item = map_of (renderMap s) uid;
          s1 = (case item of None \<Rightarrow> s | Some i \<Rightarrow> disposeItem (Some i) True s)
      in renderMap_update (AList.delete uid) s1)"

subsection \<open>The module registry\<close>

text \<open>The operations of the \<^verbatim>\<open>Map\<close> in \<^verbatim>\<open>_renderDependencies\<close> on the stores.\<close>

definition renderDependencies_get :: "Manager \<Rightarrow> UniverInstanceType \<Rightarrow> ArrayRef" where
  "renderDependencies_get s t = ArrayRef (clears s) t"

definition renderDependencies_set_empty :: "UniverInstanceType \<Rightarrow> Manager \<Rightarrow> Manager" where
  "renderDependencies_set_empty t s =
     s\<lparr>registered := (registered s)(t := True),
       arrayStore := (arrayStore s)(ArrayRef (clears s) t := [])\<rparr>"

definition renderDependencies_clear :: "Manager \<Rightarrow> Manager" where
  "renderDependencies_clear s = s\<lparr>registered := (\<lambda>_. False), clears := Suc (clears s)\<rparr>"

definition push :: "ArrayRef \<Rightarrow> Dependency list \<Rightarrow> Manager \<Rightarrow> Manager" where
  "push a deps s = s\<lparr>arrayStore := (arrayStore s)(a := arrayStore s a @ deps)\<rparr>"

text \<open>
  Modelled from the spec: \<^verbatim>\<open>remove\<close> and \<^verbatim>\<open>toDisposable\<close> of \<^verbatim>\<open>@univerjs/core\<close> are not
  among the sources. The spec has the handle, when invoked, remove the registered
  descriptors from the list: \<^verbatim>\<open>remove\<close> takes one occurrence of the item out of the array,
  the first one, and the handle runs its callback the first time it is invoked. The handle
  is a closure over the array \<^verbatim>\<open>dependencies\<close> and the registered descriptors.
\<close>

definition remove :: "'a list \<Rightarrow> 'a \<Rightarrow> 'a list" where
  "remove arr item = remove1 item arr"

record IDisposable =
  h_disposed :: bool
  h_array :: ArrayRef
  h_deps :: "Dependency list"

definition toDisposable :: "ArrayRef \<Rightarrow> Dependency list \<Rightarrow> IDisposable" where
  "toDisposable dependencies deps = \<lparr>h_disposed = False, h_array = dependencies, h_deps = deps\<rparr>"

definition handle_dispose :: "IDisposable \<Rightarrow> Manager \<Rightarrow> IDisposable \<times> Manager" where
  "handle_dispose h s =
     (if h_disposed h then (h, s)
      else (h\<lparr>h_disposed := True\<rparr>,
            s\<lparr>arrayStore := (arrayStore s)
                 (h_array h := fold (\<lambda>dep arr. remove arr dep) (h_deps h) (arrayStore s (h_array h)))\<rparr>))"

text \<open>
  One round of the loop over the table in \<^verbatim>\<open>registerRenderModules\<close>: the entry at
  position \<open>i\<close> is looked at, and a matching renderer is changed in place.
\<close>

definition injectAt :: "UniverInstanceType \<Rightarrow> Dependency list \<Rightarrow> nat \<Rightarrow> Manager \<Rightarrow> Manager" where
  "injectAt t deps i s =
     (case renderMap s ! i of
        (k, render) \<Rightarrow>
          if type render = t
          then (case tryAddRenderDependencies render deps s of
                  (render', s') \<Rightarrow> renderMap_update (\<lambda>m. m[i := (k, render')]) s')
          else s)"

definition registerRenderModules ::
  "UniverInstanceType \<Rightarrow> Dependency list \<Rightarrow> Manager \<Rightarrow> IDisposable \<times> Manager" where
  "registerRenderModules t deps s =
     (let s1 = (if \<not> registered s t then renderDependencies_set_empty t s else s);
          dependencies = renderDependencies_get s1 t;
          s2 = push dependencies deps s1;
          s3 = fold (injectAt t deps) [0..<length (renderMap s2)] s2
      in (toDisposable dependencies deps, s3))"

definition registerRenderModule ::
  "UniverInstanceType \<Rightarrow> Dependency \<Rightarrow> Manager \<Rightarrow> IDisposable \<times> Manager" where
  "registerRenderModule t ctor s =
     (let s1 = (if \<not> registered s t then renderDependencies_set_empty t s else s);
          dependencies = renderDependencies_get s1 t;
          s2 = push dependencies [ctor] s1;
          s3 = fold (injectAt t [ctor]) [0..<length (renderMap s2)] s2
      in (toDisposable dependencies [ctor], s3))"

subsection \<open>Teardown\<close>

text \<open>
  \<^verbatim>\<open>super.dispose()\<close> is \<^verbatim>\<open>Disposable.dispose\<close> of \<^verbatim>\<open>@univerjs/core\<close>; the manager
  registers nothing with it, so all it does is mark the object disposed.
\<close>

definition dispose :: "Manager \<Rightarrow> Manager" where
  "dispose s =
     (let s1 = s\<lparr>disposed := True\<rparr>;
          s2 = fold (\<lambda>(_, item). disposeItem (Some item) True) (renderMap s1) s1;
          s3 = renderDependencies_clear s2;
          s4 = renderMap_update (\<lambda>_. []) s3;
          s5 = subject_complete CurrentRender s4;
          s6 = subject_complete RenderCreated s5
      in subject_complete RenderDisposed s6)"

section \<open>What a call leaves behind\<close>

text \<open>The calls made between two states, without the tables seen.\<close>

definition newCalls :: "Manager \<Rightarrow> Manager \<Rightarrow> Effect list" where
  "newCalls s s' = map fst (drop (length (trace s)) (trace s'))"

text \<open>
  The disposal protocol as the spec words it (section 4.4): every entry of the components,
  the scene, the unit's own disposal if it has one, the engine if asked to, and the unit's
  id on the disposed stream. \<open>taken\<close> says whether the stream is still open.
\<close>

definition disposalProtocol :: "IRender \<Rightarrow> bool \<Rightarrow> bool \<Rightarrow> Effect list" where
  "disposalProtocol item destroyEngine taken =
     map (\<lambda>(_, component). ComponentDispose component) (components item)
     @ [SceneDispose (scene item)]
     @ (if hasDispose item then [ItemDispose item] else [])
     @ (if destroyEngine then [EngineDispose (engine item)] else [])
     @ [Next RenderDisposed (PString (unitId item)) taken]"

fun isDisposal :: "Effect \<Rightarrow> bool" where
  "isDisposal (ComponentDispose _) = True"
| "isDisposal (SceneDispose _) = True"
| "isDisposal (ItemDispose _) = True"
| "isDisposal (EngineDispose _) = True"
| "isDisposal _ = False"

text \<open>
  What one run of \<^verbatim>\<open>_createRender\<close> amounts to: the calls that dispose the unit it
  replaces, the calls that build the new unit, and the unit it returns.
\<close>

definition replacedCalls :: "Manager \<Rightarrow> string \<Rightarrow> Engine \<Rightarrow> Effect list" where
  "replacedCalls s uid eng =
     (case getRenderById s uid of
        None \<Rightarrow> []
      | Some old \<Rightarrow> disposalProtocol old (engine old \<noteq> eng) (\<not> isStopped s RenderDisposed))"

definition builtUnit ::
  "IUniverInstanceService \<Rightarrow> string \<Rightarrow> Engine \<Rightarrow> bool \<Rightarrow> Manager \<Rightarrow> IRender" where
  "builtUnit svc uid eng isMain s =
     (case getUnit svc uid of
        None \<Rightarrow> thumbnail uid eng (Scene (nextObj s)) isMain
      | Some unit \<Rightarrow>
          (new_RenderUnit uid unit eng (Scene (nextObj s)) isMain)
            \<lparr>injected := getRenderControllersForType s (um_type unit)\<rparr>)"

definition buildCalls ::
  "IUniverInstanceService \<Rightarrow> string \<Rightarrow> Engine \<Rightarrow> bool \<Rightarrow> Manager \<Rightarrow> Effect list" where
  "buildCalls svc uid eng isMain s =
     NewScene (Scene (nextObj s)) (SCENE_NAMESPACE @ uid) eng 1500 1000 #
     (case getUnit svc uid of
        None \<Rightarrow> []
      | Some unit \<Rightarrow>
          [CreateInstance (new_RenderUnit uid unit eng (Scene (nextObj s)) isMain),
           AddRenderDependencies (new_RenderUnit uid unit eng (Scene (nextObj s)) isMain)
             (getRenderControllersForType s (um_type unit))])"

text \<open>
  What the loop over the table in \<^verbatim>\<open>registerRenderModules\<close> amounts to for one renderer,
  and the injection calls it makes over a table.
\<close>

definition injectInto :: "UniverInstanceType \<Rightarrow> Dependency list \<Rightarrow> IRender \<Rightarrow> IRender" where
  "injectInto t deps r =
     (if type r = t \<and> isRenderUnit r then r\<lparr>injected := injected r @ deps\<rparr> else r)"

definition injectionCalls :: "UniverInstanceType \<Rightarrow> Dependency list \<Rightarrow> RenderMap \<Rightarrow> Effect list" where
  "injectionCalls t deps m =
     map (\<lambda>(_, r). AddRenderDependencies r deps)
       (filter (\<lambda>(_, r). type r = t \<and> isRenderUnit r) m)"

section \<open>Sample objects\<close>

text \<open>A full render unit with two components, as a caller of \<^verbatim>\<open>addRender\<close> may hand in.\<close>

definition sampleUnit :: IRender where
  "sampleUnit = \<lparr>unitId = ''doc1'', type = UNIVER_SHEET, engine = Engine 10, scene = Scene 11,
     mainComponent = Some (Component 12),
     components = [(''main'', Component 12), (''aux'', Component 13)],
     isMainScene = True, isThumbNail = False, isRenderUnit = True, hasDispose = True,
     injected = []\<rparr>"

text \<open>A document registry that knows the sheet \<^verbatim>\<open>doc1\<close> and nothing else.\<close>

definition sampleService :: IUniverInstanceService where
  "sampleService =
     \<lparr>getUnit = (\<lambda>uid. if uid = ''doc1''
                        then Some \<lparr>um_type = UNIVER_SHEET, um_mainComponent = Some (Component 12),
                                   um_components = [(''main'', Component 12)]\<rparr>
                        else None),
      getCurrentUnitForType = (\<lambda>t. if t = UNIVER_SHEET then Some ''doc1'' else None)\<rparr>"

text \<open>A document registry without any document: every unit created is a thumbnail stub.\<close>

definition noDocuments :: IUniverInstanceService where
  "noDocuments = \<lparr>getUnit = (\<lambda>_. None), getCurrentUnitForType = (\<lambda>_. None)\<rparr>"

section \<open>Basic facts\<close>

lemma renderMap_call [simp]: "renderMap (call e s) = renderMap s"
  by (simp add: call_def renderMap_def)

lemma renderMap_trace_update [simp]: "renderMap (s\<lparr>trace := x\<rparr>) = renderMap s"
  by (simp add: renderMap_def)

lemma renderMap_renderMap_update [simp]: "renderMap (renderMap_update f s) = f (renderMap s)"
  by (simp add: renderMap_update_def renderMap_def)

lemma trace_renderMap_update [simp]: "trace (renderMap_update f s) = trace s"
  by (simp add: renderMap_update_def)

lemma map_fst_seen [simp]:
  "map (fst \<circ> (\<lambda>e. (e, m))) xs = xs"
  "map fst (map (\<lambda>e. (e, m)) xs) = xs"
  by (simp_all add: comp_def)

lemma fold_ComponentDispose:
  "fold (\<lambda>(_, component). call (ComponentDispose component)) cs s =
     s\<lparr>trace := trace s @ map (\<lambda>(_, component). (ComponentDispose component, renderMap s)) cs\<rparr>"
  by (induction cs arbitrary: s) (simp_all add: call_def case_prod_beta)

lemma disposeItem_Some:
  "disposeItem (Some item) b s =
     s\<lparr>trace := trace s @
          map (\<lambda>e. (e, renderMap s)) (disposalProtocol item b (\<not> isStopped s RenderDisposed))\<rparr>"
  by (simp add: fold_ComponentDispose disposalProtocol_def isDisposable_def subject_next_def
      call_def Let_def case_prod_beta comp_def)

declare disposeItem.simps(2) [simp del]

lemma renderMap_update_id: "f (renderMap s) = renderMap s \<Longrightarrow> renderMap_update f s = s"
  by (simp add: renderMap_update_def renderMap_def)

lemma newCalls_append [simp]:
  "newCalls s (s'\<lparr>trace := trace s @ xs\<rparr>) = map fst xs"
  by (simp add: newCalls_def)

section \<open>Removing a unit\<close>

text \<open>
  Claim C3. \<^verbatim>\<open>removeRender\<close> on an id without a unit changes nothing: no call is made, no
  event is published, and nothing is thrown. On an id with a unit it disposes every entry
  of the unit's components once and in order (the main component is one of them and gets no
  second call), then the scene, then the unit itself if it has a \<^verbatim>\<open>dispose\<close>, then the
  engine, then hands the unit's id to the disposed stream; during all those calls the unit
  is still in the table, and afterwards its entry is gone, so \<^verbatim>\<open>has\<close> answers false.
\<close>

theorem removeRender_protocol:
  "(\<not> has s uid \<longrightarrow> removeRender uid s = s) \<and>
   (\<forall>item. getRenderById s uid = Some item \<longrightarrow>
      newCalls s (removeRender uid s) =
        map (\<lambda>(_, component). ComponentDispose component) (components item)
        @ [SceneDispose (scene item)]
        @ (if isDisposable item then [ItemDispose item] else [])
        @ [EngineDispose (engine item),
           Next RenderDisposed (PString (unitId item)) (\<not> isStopped s RenderDisposed)]
      \<and> (\<forall>(e, seen) \<in> set (drop (length (trace s)) (trace (removeRender uid s))).
            map_of seen uid = Some item)
      \<and> renderMap (removeRender uid s) = AList.delete uid (renderMap s)
      \<and> \<not> has (removeRender uid s) uid)"
proof (intro conjI allI impI)
  assume "\<not> has s uid"
  then have none: "map_of (renderMap s) uid = None" and notin: "uid \<notin> fst ` set (renderMap s)"
    by (simp_all add: has_def map_of_eq_None_iff)
  show "removeRender uid s = s"
    by (simp add: removeRender_def none renderMap_update_id notin)
next
  fix item
  assume "getRenderById s uid = Some item"
  then have some: "map_of (renderMap s) uid = Some item"
    by (simp add: getRenderById_def)
  have eq: "removeRender uid s =
      renderMap_update (AList.delete uid)
        (s\<lparr>trace := trace s @ map (\<lambda>e. (e, renderMap s))
            (disposalProtocol item True (\<not> isStopped s RenderDisposed))\<rparr>)"
    by (simp add: removeRender_def some disposeItem_Some)
  show "newCalls s (removeRender uid s) =
        map (\<lambda>(_, component). ComponentDispose component) (components item)
        @ [SceneDispose (scene item)]
        @ (if isDisposable item then [ItemDispose item] else [])
        @ [EngineDispose (engine item),
           Next RenderDisposed (PString (unitId item)) (\<not> isStopped s RenderDisposed)]"
    by (simp add: eq newCalls_def disposalProtocol_def isDisposable_def comp_def)
  show "\<forall>(e, seen) \<in> set (drop (length (trace s)) (trace (removeRender uid s))).
            map_of seen uid = Some item"
    by (auto simp add: eq some)
  show "renderMap (removeRender uid s) = AList.delete uid (renderMap s)"
    by (simp add: eq)
  show "\<not> has (removeRender uid s) uid"
    by (simp add: eq has_def delete_notin_dom)
qed

lemmas eval_defs = newManager_def addRender_def addRenderUnit_def renderMap_update_def renderMap_def
  getRenderById_def has_def removeRender_def call_def subject_next_def isDisposable_def
  newCalls_def sampleUnit_def Let_def

theorem removeRender_protocol_witness:
  "\<not> has newManager ''ghost'' \<and> removeRender ''ghost'' newManager = newManager \<and>
   getRenderById (addRender ''doc1'' sampleUnit newManager) ''doc1'' = Some sampleUnit \<and>
   newCalls (addRender ''doc1'' sampleUnit newManager)
     (removeRender ''doc1'' (addRender ''doc1'' sampleUnit newManager)) =
     [ComponentDispose (Component 12), ComponentDispose (Component 13), SceneDispose (Scene 11),
      ItemDispose sampleUnit, EngineDispose (Engine 10),
      Next RenderDisposed (PString ''doc1'') True] \<and>
   \<not> has (removeRender ''doc1'' (addRender ''doc1'' sampleUnit newManager)) ''doc1''"
proof -
  have a: "\<not> has newManager ''ghost''"
    by (simp add: has_def newManager_def renderMap_def)
  have b: "getRenderById (addRender ''doc1'' sampleUnit newManager) ''doc1'' = Some sampleUnit"
    by (simp add: eval_defs)
  have c: "\<not> isStopped (addRender ''doc1'' sampleUnit newManager) RenderDisposed"
    by (simp add: eval_defs)
  show ?thesis
    using a b c removeRender_protocol [of newManager "''ghost''"]
      removeRender_protocol [of "addRender ''doc1'' sampleUnit newManager" "''doc1''"]
    by (simp add: sampleUnit_def isDisposable_def)
qed

section \<open>One run of the create-or-replace path\<close>

lemma disposeItem_opt:
  "disposeItem x b s =
     s\<lparr>trace := trace s @ map (\<lambda>e. (e, renderMap s))
        (case x of None \<Rightarrow> [] | Some item \<Rightarrow> disposalProtocol item b (\<not> isStopped s RenderDisposed))\<rparr>"
  by (cases x) (simp_all add: disposeItem_Some)

lemma getRenderControllersForType_frame [simp]:
  "getRenderControllersForType (s\<lparr>trace := x\<rparr>) t = getRenderControllersForType s t"
  "getRenderControllersForType (s\<lparr>nextObj := n\<rparr>) t = getRenderControllersForType s t"
  "getRenderControllersForType (call e s) t = getRenderControllersForType s t"
  by (simp_all add: getRenderControllersForType_def call_def)

lemma builtUnit_fields [simp]:
  "engine (builtUnit svc uid eng isMain s) = eng"
  "scene (builtUnit svc uid eng isMain s) = Scene (nextObj s)"
  "unitId (builtUnit svc uid eng isMain s) = uid"
  "isMainScene (builtUnit svc uid eng isMain s) = isMain"
  by (simp_all add: builtUnit_def thumbnail_def new_RenderUnit_def split: option.splits)

lemma createRender_priv_eq:
  "createRender_priv svc uid eng isMain s =
     (builtUnit svc uid eng isMain s,
      s\<lparr>nextObj := Suc (nextObj s),
        trace := trace s @ map (\<lambda>e. (e, renderMap s))
                   (replacedCalls s uid eng @ buildCalls svc uid eng isMain s),
        mapStore := (mapStore s)
          (renderMapRef s := AList.update uid (builtUnit svc uid eng isMain s) (renderMap s))\<rparr>)"
proof (cases "getUnit svc uid")
  case None
  then show ?thesis
    by (simp add: createRender_priv_def disposeItem_opt replacedCalls_def builtUnit_def
        buildCalls_def DEFAULT_SCENE_SIZE_def new_Scene_def Let_def call_def addRenderUnit_def
        renderMap_update_def renderMap_def getRenderById_def
        split: option.splits)
next
  case (Some unit)
  then show ?thesis
    by (simp add: createRender_priv_def disposeItem_opt replacedCalls_def builtUnit_def
        buildCalls_def DEFAULT_SCENE_SIZE_def new_Scene_def Let_def call_def addRenderUnit_def
        renderMap_update_def renderMap_def getRenderById_def new_RenderUnit_def
        createInstance_RenderUnit_def tryAddRenderDependencies_def addRenderDependencies_def
        getUnitType_def
        split: option.splits)
qed

lemma createRender_eq:
  "createRender svc uid s =
     (let e = Engine (nextObj s);
          sa = call (NewEngine e) (s\<lparr>nextObj := Suc (nextObj s)\<rparr>);
          r = builtUnit svc uid e True sa
      in (r, subject_next RenderCreated (PRender r) (snd (createRender_priv svc uid e True sa))))"
  by (simp add: createRender_def new_Engine_def Let_def createRender_priv_eq)

lemma newCalls_createRender_priv:
  "newCalls s (snd (createRender_priv svc uid eng isMain s)) =
     replacedCalls s uid eng @ buildCalls svc uid eng isMain s"
  by (simp add: createRender_priv_eq newCalls_def comp_def)

lemma filter_isDisposal_buildCalls [simp]: "filter isDisposal (buildCalls svc uid eng isMain s) = []"
  by (simp add: buildCalls_def split: option.splits)

lemma count_list_no_disposal:
  "filter isDisposal xs = [] \<Longrightarrow> isDisposal e \<Longrightarrow> count_list xs e = 0"
  by (induction xs) (auto split: if_splits)

lemma count_ComponentDispose:
  "count_list (map (\<lambda>(_, component). ComponentDispose component) cs) (ComponentDispose c) =
     count_list (map snd cs) c"
  by (induction cs) auto

lemma count_ComponentDispose_other:
  "\<forall>c. e \<noteq> ComponentDispose c \<Longrightarrow>
     count_list (map (\<lambda>(_, component). ComponentDispose component) cs) e = 0"
  by (induction cs) auto

lemma count_disposalProtocol_scene:
  "count_list (disposalProtocol item b t) (SceneDispose (scene item)) = 1"
  by (simp add: disposalProtocol_def count_ComponentDispose_other)

lemma count_disposalProtocol_component:
  "count_list (disposalProtocol item b t) (ComponentDispose c) = count_list (map snd (components item)) c"
  by (simp add: disposalProtocol_def count_ComponentDispose)

lemma count_disposalProtocol_engine:
  "count_list (disposalProtocol item b t) (EngineDispose (engine item)) = (if b then 1 else 0)"
  by (simp add: disposalProtocol_def count_ComponentDispose_other)

section \<open>Replacing a unit\<close>

text \<open>
  Claim C1. When \<^verbatim>\<open>_createRender\<close> is called for an id that has a unit, the calls it makes
  begin with the disposal protocol of that unit, and no other disposal follows: the unit's
  scene is disposed once, each component as often as it is entered in the components, and
  the engine once if the engine handed in is another object and not at all if it is the
  same. Two \<^verbatim>\<open>createRender\<close> calls for one id: the second allocates an engine that is not
  the first unit's, then runs the protocol on the first unit, engine included.
\<close>

theorem createRender_priv_replaces:
  "(\<forall>old. getRenderById s uid = Some old \<longrightarrow>
      (let calls = newCalls s (snd (createRender_priv svc uid eng isMain s));
           D = disposalProtocol old (engine old \<noteq> eng) (\<not> isStopped s RenderDisposed)
       in take (length D) calls = D \<and> filter isDisposal (drop (length D) calls) = [] \<and>
          count_list calls (SceneDispose (scene old)) = 1 \<and>
          (\<forall>c. count_list calls (ComponentDispose c) = count_list (map snd (components old)) c) \<and>
          count_list calls (EngineDispose (engine old)) = (if engine old = eng then 0 else 1)))
   \<and> (case createRender svc uid s of
         (r1, s1) \<Rightarrow>
           (case createRender svc' uid s1 of
              (r2, s2) \<Rightarrow>
                (let calls = newCalls s1 s2;
                     D = disposalProtocol r1 True (\<not> isStopped s RenderDisposed)
                 in engine r2 \<noteq> engine r1 \<and>
                    take (Suc (length D)) calls = NewEngine (engine r2) # D \<and>
                    filter isDisposal (drop (Suc (length D)) calls) = [] \<and>
                    count_list calls (SceneDispose (scene r1)) = 1 \<and>
                    (\<forall>c. count_list calls (ComponentDispose c) =
                           count_list (map snd (components r1)) c) \<and>
                    count_list calls (EngineDispose (engine r1)) = 1)))"
proof (intro conjI allI impI)
  fix old
  assume old: "getRenderById s uid = Some old"
  define D where "D = disposalProtocol old (engine old \<noteq> eng) (\<not> isStopped s RenderDisposed)"
  define B where "B = buildCalls svc uid eng isMain s"
  have calls: "newCalls s (snd (createRender_priv svc uid eng isMain s)) = D @ B"
    by (simp add: newCalls_createRender_priv replacedCalls_def old D_def B_def)
  have B: "filter isDisposal B = []"
    by (simp add: B_def)
  have c1: "count_list (D @ B) (SceneDispose (scene old)) = 1"
    by (simp add: D_def count_disposalProtocol_scene count_list_no_disposal [OF B])
  have c2: "count_list (D @ B) (ComponentDispose c) = count_list (map snd (components old)) c" for c
    by (simp add: D_def count_disposalProtocol_component count_list_no_disposal [OF B])
  have c3: "count_list (D @ B) (EngineDispose (engine old)) = (if engine old = eng then 0 else 1)"
    by (simp add: D_def count_disposalProtocol_engine count_list_no_disposal [OF B])
  show "let calls = newCalls s (snd (createRender_priv svc uid eng isMain s));
            D = disposalProtocol old (engine old \<noteq> eng) (\<not> isStopped s RenderDisposed)
        in take (length D) calls = D \<and> filter isDisposal (drop (length D) calls) = [] \<and>
           count_list calls (SceneDispose (scene old)) = 1 \<and>
           (\<forall>c. count_list calls (ComponentDispose c) = count_list (map snd (components old)) c) \<and>
           count_list calls (EngineDispose (engine old)) = (if engine old = eng then 0 else 1)"
    unfolding Let_def calls D_def [symmetric]
    using B c1 c2 c3 by simp
next
  define e1 where "e1 = Engine (nextObj s)"
  define sa where "sa = call (NewEngine e1) (s\<lparr>nextObj := Suc (nextObj s)\<rparr>)"
  define r1 where "r1 = builtUnit svc uid e1 True sa"
  define s1 where "s1 = subject_next RenderCreated (PRender r1) (snd (createRender_priv svc uid e1 True sa))"
  have first: "createRender svc uid s = (r1, s1)"
    unfolding createRender_eq e1_def sa_def r1_def s1_def Let_def ..
  have eng1: "engine r1 = e1"
    by (simp add: r1_def)
  have next1: "nextObj s1 = Suc (Suc (nextObj s))"
    by (simp add: s1_def createRender_priv_eq subject_next_def call_def sa_def)
  have look1: "getRenderById s1 uid = Some r1"
    by (simp add: s1_def createRender_priv_eq subject_next_def call_def getRenderById_def
        renderMap_def update_conv' r1_def)
  have stop1: "isStopped s1 RenderDisposed = isStopped s RenderDisposed"
    by (simp add: s1_def createRender_priv_eq subject_next_def call_def sa_def)
  define e2 where "e2 = Engine (nextObj s1)"
  define sb where "sb = call (NewEngine e2) (s1\<lparr>nextObj := Suc (nextObj s1)\<rparr>)"
  define r2 where "r2 = builtUnit svc' uid e2 True sb"
  define s2 where "s2 = subject_next RenderCreated (PRender r2) (snd (createRender_priv svc' uid e2 True sb))"
  have second: "createRender svc' uid s1 = (r2, s2)"
    unfolding createRender_eq e2_def sb_def r2_def s2_def Let_def ..
  have eng2: "engine r2 = e2"
    by (simp add: r2_def)
  have neq: "e2 \<noteq> e1"
    by (simp add: e1_def e2_def next1)
  define D where "D = disposalProtocol r1 True (\<not> isStopped s RenderDisposed)"
  define B where "B = buildCalls svc' uid e2 True sb @ [Next RenderCreated (PRender r2) (\<not> isStopped sb RenderCreated)]"
  have looksb: "getRenderById sb uid = Some r1"
    using look1 by (simp add: sb_def getRenderById_def call_def renderMap_def)
  have stopsb: "isStopped sb RenderDisposed = isStopped s RenderDisposed"
    using stop1 by (simp add: sb_def call_def)
  have calls: "newCalls s1 s2 = NewEngine e2 # D @ B"
    using eng1 neq
    by (simp add: s2_def createRender_priv_eq subject_next_def newCalls_def
        replacedCalls_def looksb stopsb D_def B_def comp_def)
      (simp add: sb_def call_def comp_def)
  have B: "filter isDisposal B = []"
    by (simp add: B_def)
  have c1: "count_list (D @ B) (SceneDispose (scene r1)) = 1"
    by (simp add: D_def count_disposalProtocol_scene count_list_no_disposal [OF B])
  have c2: "count_list (D @ B) (ComponentDispose c) = count_list (map snd (components r1)) c" for c
    by (simp add: D_def count_disposalProtocol_component count_list_no_disposal [OF B])
  have c3: "count_list (D @ B) (EngineDispose (engine r1)) = 1"
    by (simp add: D_def count_disposalProtocol_engine count_list_no_disposal [OF B])
  show "case createRender svc uid s of
         (r1, s1) \<Rightarrow>
           (case createRender svc' uid s1 of
              (r2, s2) \<Rightarrow>
                (let calls = newCalls s1 s2;
                     D = disposalProtocol r1 True (\<not> isStopped s RenderDisposed)
                 in engine r2 \<noteq> engine r1 \<and>
                    take (Suc (length D)) calls = NewEngine (engine r2) # D \<and>
                    filter isDisposal (drop (Suc (length D)) calls) = [] \<and>
                    count_list calls (SceneDispose (scene r1)) = 1 \<and>
                    (\<forall>c. count_list calls (ComponentDispose c) =
                           count_list (map snd (components r1)) c) \<and>
                    count_list calls (EngineDispose (engine r1)) = 1))"
    unfolding first second prod.case Let_def calls D_def [symmetric]
    using B c1 c2 c3 neq eng1 eng2 by simp
qed

lemma sample_lookup:
  "getRenderById (addRender ''doc1'' sampleUnit newManager) ''doc1'' = Some sampleUnit"
  by (simp add: eval_defs)

theorem createRender_priv_replaces_witness:
  "getRenderById (addRender ''doc1'' sampleUnit newManager) ''doc1'' = Some sampleUnit \<and>
   count_list (newCalls (addRender ''doc1'' sampleUnit newManager)
       (snd (createRender_priv sampleService ''doc1'' (Engine 10) True
               (addRender ''doc1'' sampleUnit newManager))))
     (EngineDispose (Engine 10)) = 0 \<and>
   count_list (newCalls (addRender ''doc1'' sampleUnit newManager)
       (snd (createRender_priv sampleService ''doc1'' (Engine 99) True
               (addRender ''doc1'' sampleUnit newManager))))
     (EngineDispose (Engine 10)) = 1 \<and>
   count_list (newCalls (addRender ''doc1'' sampleUnit newManager)
       (snd (createRender_priv sampleService ''doc1'' (Engine 99) True
               (addRender ''doc1'' sampleUnit newManager))))
     (SceneDispose (Scene 11)) = 1"
  using sample_lookup
    createRender_priv_replaces [of "addRender ''doc1'' sampleUnit newManager" "''doc1''"
      sampleService "Engine 10" True, THEN conjunct1, rule_format, OF sample_lookup]
    createRender_priv_replaces [of "addRender ''doc1'' sampleUnit newManager" "''doc1''"
      sampleService "Engine 99" True, THEN conjunct1, rule_format, OF sample_lookup]
  by (simp add: Let_def sampleUnit_def)

section \<open>The created event\<close>

text \<open>
  Claim C7. After \<^verbatim>\<open>createRender\<close> the unit is in the table, the last call made is
  \<^verbatim>\<open>next\<close> on the created stream with that unit, and every created event of the run was
  handed over when the table already held the unit under its id; a subscriber that looks
  the id up inside the event finds it.
\<close>

theorem created_after_insert:
  "case createRender svc uid s of
     (r, s') \<Rightarrow>
       getRenderById s' uid = Some r \<and> has s' uid \<and>
       map_of (mapStore s' (getRenderAll s')) uid = Some r \<and>
       last (trace s') =
         (Next RenderCreated (PRender r) (\<not> isStopped s RenderCreated), renderMap s') \<and>
       (\<forall>(e, seen) \<in> set (drop (length (trace s)) (trace s')).
          (\<exists>v t. e = Next RenderCreated v t) \<longrightarrow>
            e = Next RenderCreated (PRender r) (\<not> isStopped s RenderCreated) \<and>
            map_of seen uid = Some r)"
proof -
  define e where "e = Engine (nextObj s)"
  define sa where "sa = call (NewEngine e) (s\<lparr>nextObj := Suc (nextObj s)\<rparr>)"
  define r where "r = builtUnit svc uid e True sa"
  define sb where "sb = snd (createRender_priv svc uid e True sa)"
  define s' where "s' = subject_next RenderCreated (PRender r) sb"
  have run: "createRender svc uid s = (r, s')"
    unfolding createRender_eq e_def sa_def r_def s'_def sb_def Let_def ..
  have sb: "sb = sa\<lparr>nextObj := Suc (nextObj sa),
        trace := trace sa @ map (\<lambda>e. (e, renderMap sa))
                   (replacedCalls sa uid e @ buildCalls svc uid e True sa),
        mapStore := (mapStore sa) (renderMapRef sa := AList.update uid r (renderMap sa))\<rparr>"
    by (simp add: sb_def createRender_priv_eq r_def)
  have tab: "renderMap s' = AList.update uid r (renderMap s)"
    by (simp add: s'_def subject_next_def sb sa_def call_def renderMap_def)
  have look: "map_of (renderMap s') uid = Some r"
    by (simp add: tab update_conv')
  have stop: "isStopped sb RenderCreated = isStopped s RenderCreated"
    by (simp add: sb sa_def call_def)
  have tr: "trace s' = trace s @ (NewEngine e, renderMap s) #
       map (\<lambda>e. (e, renderMap s)) (replacedCalls sa uid e @ buildCalls svc uid e True sa) @
       [(Next RenderCreated (PRender r) (\<not> isStopped s RenderCreated), renderMap s')]"
    using stop by (simp add: s'_def subject_next_def call_def) (simp add: sb sa_def call_def renderMap_def)
  have notcreated: "x \<in> set (replacedCalls sa uid e @ buildCalls svc uid e True sa) \<Longrightarrow>
      x \<noteq> Next RenderCreated v t" for x v t
    by (auto simp add: replacedCalls_def buildCalls_def disposalProtocol_def
        split: option.splits if_splits)
  have "getRenderById s' uid = Some r"
    by (simp add: getRenderById_def look)
  moreover have "has s' uid"
    using look by (simp add: has_def) (metis domI dom_map_of_conv_image_fst)
  moreover have "map_of (mapStore s' (getRenderAll s')) uid = Some r"
    using look by (simp add: getRenderAll_def renderMap_def)
  moreover have "last (trace s') =
         (Next RenderCreated (PRender r) (\<not> isStopped s RenderCreated), renderMap s')"
    by (simp add: tr)
  moreover have "\<forall>(e, seen) \<in> set (drop (length (trace s)) (trace s')).
          (\<exists>v t. e = Next RenderCreated v t) \<longrightarrow>
            e = Next RenderCreated (PRender r) (\<not> isStopped s RenderCreated) \<and>
            map_of seen uid = Some r"
    using notcreated look by (auto simp add: tr)
  ultimately show ?thesis
    unfolding run prod.case by blast
qed

lemma sample_created_table:
  "renderMap (snd (createRender sampleService ''doc1'' newManager)) =
      [(''doc1'', fst (createRender sampleService ''doc1'' newManager))]"
  by (simp add: createRender_eq createRender_priv_eq Let_def subject_next_def call_def
      renderMap_def newManager_def)

theorem created_after_insert_witness:
  "has (snd (createRender sampleService ''doc1'' newManager)) ''doc1'' \<and>
   last (trace (snd (createRender sampleService ''doc1'' newManager))) =
     (Next RenderCreated (PRender (fst (createRender sampleService ''doc1'' newManager))) True,
      [(''doc1'', fst (createRender sampleService ''doc1'' newManager))])"
proof -
  have open_: "\<not> isStopped newManager RenderCreated"
    by (simp add: newManager_def)
  show ?thesis
    using created_after_insert [where svc = sampleService and uid = "''doc1''" and s = newManager] open_
      sample_created_table
    by (simp add: case_prod_beta)
qed

section \<open>No half-built unit in the table\<close>

text \<open>
  Claim C9. During \<^verbatim>\<open>_createRender\<close> every call into a collaborator (disposal of the old
  unit, the disposed event, construction of the scene and of the unit, module injection)
  runs while the table is what it was at the start; the table changes once, at the end, and
  the entry written is the unit returned: on the engine handed in, with the scene just
  constructed, and either the thumbnail stub or the full unit with every module registered
  for its type injected.
\<close>

theorem createRender_priv_table:
  "case createRender_priv svc uid eng isMain s of
     (r, s') \<Rightarrow>
       newCalls s s' = replacedCalls s uid eng @ buildCalls svc uid eng isMain s \<and>
       (\<forall>(e, seen) \<in> set (drop (length (trace s)) (trace s')). seen = renderMap s) \<and>
       renderMap s' = AList.update uid r (renderMap s) \<and>
       unitId r = uid \<and> engine r = eng \<and> scene r = Scene (nextObj s) \<and>
       (case getUnit svc uid of
          None \<Rightarrow> r = thumbnail uid eng (scene r) isMain
        | Some unit \<Rightarrow>
            r = (new_RenderUnit uid unit eng (scene r) isMain)
                  \<lparr>injected := getRenderControllersForType s (getUnitType svc uid)\<rparr>)"
  by (auto simp add: createRender_priv_eq newCalls_def comp_def renderMap_def builtUnit_def
      getUnitType_def thumbnail_def new_RenderUnit_def split: option.splits)

theorem createRender_priv_table_witness:
  "renderMap (snd (createRender_priv sampleService ''doc1'' (Engine 1) True newManager)) =
     [(''doc1'', fst (createRender_priv sampleService ''doc1'' (Engine 1) True newManager))] \<and>
   injected (fst (createRender_priv sampleService ''doc1'' (Engine 1) True newManager)) = [] \<and>
   map snd (trace (snd (createRender_priv sampleService ''doc1'' (Engine 1) True newManager))) =
     [[], [], []]"
proof -
  have tr: "length (trace (snd (createRender_priv sampleService ''doc1'' (Engine 1) True newManager))) = 3"
    by (simp add: createRender_priv_eq replacedCalls_def buildCalls_def getRenderById_def
        renderMap_def newManager_def sampleService_def)
  have all: "\<forall>x \<in> set xs. snd x = m \<Longrightarrow> map snd xs = replicate (length xs) m" for xs :: "('a \<times> 'b) list" and m
    by (induction xs) auto
  have seen: "\<forall>x \<in> set (trace (snd (createRender_priv sampleService ''doc1'' (Engine 1) True newManager))).
      snd x = []"
    using createRender_priv_table [where svc = sampleService and uid = "''doc1''" and eng = "Engine 1"
        and isMain = True and s = newManager]
    by (auto simp add: case_prod_beta newManager_def renderMap_def)
  have tab: "renderMap (snd (createRender_priv sampleService ''doc1'' (Engine 1) True newManager)) =
     [(''doc1'', fst (createRender_priv sampleService ''doc1'' (Engine 1) True newManager))]"
    using createRender_priv_table [where svc = sampleService and uid = "''doc1''" and eng = "Engine 1"
        and isMain = True and s = newManager]
    by (simp add: case_prod_beta newManager_def renderMap_def)
  have inj: "injected (fst (createRender_priv sampleService ''doc1'' (Engine 1) True newManager)) = []"
    by (simp add: createRender_priv_eq builtUnit_def sampleService_def new_RenderUnit_def
        getRenderControllersForType_def newManager_def)
  show ?thesis
    using all [OF seen] tr tab inj by (simp add: numeral_3_eq_3)
qed

section \<open>The loop over the table in registerRenderModules\<close>

lemma list_step:
  assumes "n < length m"
  shows "(map f (take n m) @ drop n m)[n := f (m ! n)] = map f (take (Suc n) m) @ drop (Suc n) m"
proof -
  have "drop n m = m ! n # drop (Suc n) m"
    using assms by (simp add: Cons_nth_drop_Suc)
  then have "(map f (take n m) @ drop n m)[n := f (m ! n)] =
      map f (take n m) @ f (m ! n) # drop (Suc n) m"
    using assms by (simp add: list_update_append)
  also have "\<dots> = map f (take (Suc n) m) @ drop (Suc n) m"
    using assms by (simp add: take_Suc_conv_app_nth)
  finally show ?thesis .
qed

lemma injectAt_at:
  "renderMap s ! n = (k, r) \<Longrightarrow>
     injectAt t deps n s =
       (if type r = t \<and> isRenderUnit r
        then renderMap_update (\<lambda>m. m[n := (k, r\<lparr>injected := injected r @ deps\<rparr>)])
               (call (AddRenderDependencies r deps) s)
        else if type r = t then renderMap_update (\<lambda>m. m[n := (k, r)]) s else s)"
  by (simp add: injectAt_def tryAddRenderDependencies_def addRenderDependencies_def)

lemma renderMap_update_call:
  "renderMap_update f (call e s) =
     s\<lparr>mapStore := (mapStore s)(renderMapRef s := f (renderMap s)),
       trace := trace s @ [(e, renderMap s)]\<rparr>"
  by (simp add: renderMap_update_def call_def renderMap_def)

lemma injectAt_step:
  assumes n: "n < length m" and tab: "renderMap s = map (\<lambda>(k, r). (k, injectInto t deps r)) (take n m) @ drop n m"
  shows "\<exists>X. injectAt t deps n s =
           s\<lparr>mapStore := (mapStore s)(renderMapRef s :=
                 map (\<lambda>(k, r). (k, injectInto t deps r)) (take (Suc n) m) @ drop (Suc n) m),
             trace := trace s @ X\<rparr> \<and>
           map fst X = injectionCalls t deps [m ! n]"
proof -
  obtain k r where kr: "m ! n = (k, r)"
    by (cases "m ! n")
  have at: "renderMap s ! n = (k, r)"
    using n by (simp add: tab nth_append kr)
  have step: "(renderMap s)[n := (k, injectInto t deps r)] =
      map (\<lambda>(k, r). (k, injectInto t deps r)) (take (Suc n) m) @ drop (Suc n) m"
    using list_step [OF n, of "\<lambda>(k, r). (k, injectInto t deps r)"] by (simp add: tab kr)
  show ?thesis
  proof (cases "type r = t \<and> isRenderUnit r")
    case True
    then have inj: "injectInto t deps r = r\<lparr>injected := injected r @ deps\<rparr>"
      by (simp add: injectInto_def)
    have "injectAt t deps n s =
        s\<lparr>mapStore := (mapStore s)(renderMapRef s :=
                 map (\<lambda>(k, r). (k, injectInto t deps r)) (take (Suc n) m) @ drop (Suc n) m),
             trace := trace s @ [(AddRenderDependencies r deps, renderMap s)]\<rparr>"
      unfolding injectAt_at [OF at] renderMap_update_call step [symmetric] inj
      using True by simp
    moreover have "map fst [(AddRenderDependencies r deps, renderMap s)] = injectionCalls t deps [m ! n]"
      using True by (simp add: injectionCalls_def kr)
    ultimately show ?thesis by blast
  next
    case False
    then have same: "injectInto t deps r = r"
      by (auto simp add: injectInto_def)
    have id: "(renderMap s)[n := (k, r)] = renderMap s"
      using at by (metis list_update_id)
    with step same have tab': "map (\<lambda>(k, r). (k, injectInto t deps r)) (take (Suc n) m) @ drop (Suc n) m
        = renderMap s"
      by simp
    have "injectAt t deps n s = s"
      unfolding injectAt_at [OF at] using False id
      by (simp add: renderMap_update_def) (simp add: renderMap_def)
    then have "injectAt t deps n s =
        s\<lparr>mapStore := (mapStore s)(renderMapRef s :=
                 map (\<lambda>(k, r). (k, injectInto t deps r)) (take (Suc n) m) @ drop (Suc n) m),
             trace := trace s @ []\<rparr>"
      unfolding tab' by (simp add: renderMap_def)
    moreover have "map fst [] = injectionCalls t deps [m ! n]"
      using False by (simp add: injectionCalls_def kr)
    ultimately show ?thesis by blast
  qed
qed


lemma injectionCalls_append:
  "injectionCalls t deps (xs @ ys) = injectionCalls t deps xs @ injectionCalls t deps ys"
  by (simp add: injectionCalls_def)

lemma inject_loop:
  "n \<le> length (renderMap s) \<Longrightarrow>
     \<exists>X. fold (injectAt t deps) [0..<n] s =
           s\<lparr>mapStore := (mapStore s)(renderMapRef s :=
                 map (\<lambda>(k, r). (k, injectInto t deps r)) (take n (renderMap s)) @ drop n (renderMap s)),
             trace := trace s @ X\<rparr> \<and>
         map fst X = injectionCalls t deps (take n (renderMap s))"
proof (induction n)
  case 0
  have "fold (injectAt t deps) [0..<0] s =
      s\<lparr>mapStore := (mapStore s)(renderMapRef s :=
             map (\<lambda>(k, r). (k, injectInto t deps r)) (take 0 (renderMap s)) @ drop 0 (renderMap s)),
         trace := trace s @ []\<rparr>"
    by (simp add: renderMap_def)
  moreover have "map fst ([] :: (Effect \<times> RenderMap) list) = injectionCalls t deps (take 0 (renderMap s))"
    by (simp add: injectionCalls_def)
  ultimately show ?case by blast
next
  case (Suc n)
  have n: "n < length (renderMap s)" and le: "n \<le> length (renderMap s)"
    using Suc.prems by simp_all
  from Suc.IH [OF le] obtain X where
    X: "fold (injectAt t deps) [0..<n] s =
           s\<lparr>mapStore := (mapStore s)(renderMapRef s :=
                 map (\<lambda>(k, r). (k, injectInto t deps r)) (take n (renderMap s)) @ drop n (renderMap s)),
             trace := trace s @ X\<rparr>"
    and calls: "map fst X = injectionCalls t deps (take n (renderMap s))"
    by blast
  define sn where "sn = fold (injectAt t deps) [0..<n] s"
  have tab: "renderMap sn =
      map (\<lambda>(k, r). (k, injectInto t deps r)) (take n (renderMap s)) @ drop n (renderMap s)"
    unfolding sn_def X by (simp add: renderMap_def)
  from injectAt_step [OF n tab] obtain Y where
    Y: "injectAt t deps n sn =
           sn\<lparr>mapStore := (mapStore sn)(renderMapRef sn :=
                 map (\<lambda>(k, r). (k, injectInto t deps r)) (take (Suc n) (renderMap s))
                 @ drop (Suc n) (renderMap s)),
             trace := trace sn @ Y\<rparr>"
    and calls': "map fst Y = injectionCalls t deps [renderMap s ! n]"
    by blast
  have "fold (injectAt t deps) [0..<Suc n] s = injectAt t deps n sn"
    by (simp add: sn_def)
  also have "\<dots> = s\<lparr>mapStore := (mapStore s)(renderMapRef s :=
                 map (\<lambda>(k, r). (k, injectInto t deps r)) (take (Suc n) (renderMap s))
                 @ drop (Suc n) (renderMap s)),
             trace := trace s @ (X @ Y)\<rparr>"
    unfolding Y unfolding sn_def X by simp
  finally have eq: "fold (injectAt t deps) [0..<Suc n] s =
      s\<lparr>mapStore := (mapStore s)(renderMapRef s :=
                 map (\<lambda>(k, r). (k, injectInto t deps r)) (take (Suc n) (renderMap s))
                 @ drop (Suc n) (renderMap s)),
             trace := trace s @ (X @ Y)\<rparr>" .
  have "map fst (X @ Y) = injectionCalls t deps (take (Suc n) (renderMap s))"
    using n by (simp add: calls calls' take_Suc_conv_app_nth injectionCalls_append)
  with eq show ?case
    by blast
qed

lemma registerRenderModules_eq:
  "\<exists>X. registerRenderModules t deps s =
         (toDisposable (ArrayRef (clears s) t) deps,
          s\<lparr>registered := (registered s)(t := True),
            arrayStore := (arrayStore s)
              (ArrayRef (clears s) t := getRenderControllersForType s t @ deps),
            mapStore := (mapStore s)(renderMapRef s :=
              map (\<lambda>(k, r). (k, injectInto t deps r)) (renderMap s)),
            trace := trace s @ X\<rparr>) \<and>
       map fst X = injectionCalls t deps (renderMap s)"
proof -
  define s2 where "s2 = s\<lparr>registered := (registered s)(t := True),
            arrayStore := (arrayStore s)
              (ArrayRef (clears s) t := getRenderControllersForType s t @ deps)\<rparr>"
  have pushed: "push (ArrayRef (clears s) t)
      deps (if \<not> registered s t then renderDependencies_set_empty t s else s) = s2"
    by (cases "registered s t")
      (simp_all add: s2_def push_def renderDependencies_get_def renderDependencies_set_empty_def
        getRenderControllersForType_def fun_upd_idem)
  have ref: "renderDependencies_get (if \<not> registered s t then renderDependencies_set_empty t s else s) t
      = ArrayRef (clears s) t"
    by (simp add: renderDependencies_get_def renderDependencies_set_empty_def)
  have tab: "renderMap s2 = renderMap s"
    by (simp add: s2_def renderMap_def)
  from inject_loop [of "length (renderMap s2)" s2 t deps] obtain X where
    X: "fold (injectAt t deps) [0..<length (renderMap s2)] s2 =
           s2\<lparr>mapStore := (mapStore s2)(renderMapRef s2 :=
                 map (\<lambda>(k, r). (k, injectInto t deps r)) (renderMap s2)),
             trace := trace s2 @ X\<rparr>"
    and calls: "map fst X = injectionCalls t deps (renderMap s2)"
    by auto
  have "registerRenderModules t deps s =
         (toDisposable (ArrayRef (clears s) t) deps,
          s\<lparr>registered := (registered s)(t := True),
            arrayStore := (arrayStore s)
              (ArrayRef (clears s) t := getRenderControllersForType s t @ deps),
            mapStore := (mapStore s)(renderMapRef s :=
              map (\<lambda>(k, r). (k, injectInto t deps r)) (renderMap s)),
            trace := trace s @ X\<rparr>)"
  proof -
    have "registerRenderModules t deps s =
        (toDisposable (ArrayRef (clears s) t) deps,
         fold (injectAt t deps) [0..<length (renderMap s2)] s2)"
      by (simp only: registerRenderModules_def Let_def pushed ref)
    then show ?thesis
      unfolding X by (simp add: tab) (simp add: s2_def)
  qed
  with calls tab show ?thesis
    by auto
qed

lemma registerRenderModule_eq: "registerRenderModule t ctor s = registerRenderModules t [ctor] s"
  by (simp add: registerRenderModule_def registerRenderModules_def)

lemma renderMap_registerRenderModules:
  "renderMap (snd (registerRenderModules t deps s)) =
     map (\<lambda>(k, r). (k, injectInto t deps r)) (renderMap s)"
  using registerRenderModules_eq [of t deps s] by (auto simp add: renderMap_def)

lemma newCalls_registerRenderModules:
  "newCalls s (snd (registerRenderModules t deps s)) = injectionCalls t deps (renderMap s)"
  using registerRenderModules_eq [of t deps s] by (auto simp add: newCalls_def)

lemma getRenderControllersForType_registerRenderModules:
  "getRenderControllersForType (snd (registerRenderModules t deps s)) t' =
     (if t' = t then getRenderControllersForType s t @ deps else getRenderControllersForType s t')"
  using registerRenderModules_eq [of t deps s] by (auto simp add: getRenderControllersForType_def)

lemma getRenderById_registerRenderModules:
  "getRenderById (snd (registerRenderModules t deps s)) uid =
     map_option (injectInto t deps) (getRenderById s uid)"
  by (simp add: getRenderById_def renderMap_registerRenderModules map_of_map)

lemma injected_builtUnit:
  "getUnit svc uid = Some unit \<Longrightarrow>
     injected (builtUnit svc uid eng isMain s) = getRenderControllersForType s (um_type unit) \<and>
     type (builtUnit svc uid eng isMain s) = um_type unit \<and>
     isRenderUnit (builtUnit svc uid eng isMain s)"
  by (simp add: builtUnit_def new_RenderUnit_def)

section \<open>Registering modules\<close>

text \<open>
  Claim C2, as amended. \<^verbatim>\<open>registerRenderModules\<close> appends the descriptors to the list of the
  type (a type without a list gets one first) and calls \<^verbatim>\<open>addRenderDependencies\<close> once, in
  table order, on every entry of the table that has the type and is a \<^verbatim>\<open>RenderUnit\<close>
  instance; these units get the descriptors appended to what they hold, every other entry
  (another type, a thumbnail stub, a foreign renderer) is left as it is.
  \<^verbatim>\<open>registerRenderModule\<close> does the same with the one descriptor. A unit created afterwards
  for a document of the type holds the whole list of the type, the new descriptors included.
\<close>

theorem registerRenderModules_injects:
  "case registerRenderModules t deps s of
     (h, s') \<Rightarrow>
       getRenderControllersForType s' t = getRenderControllersForType s t @ deps \<and>
       renderMap s' =
         map (\<lambda>(k, r). (k, if type r = t \<and> isRenderUnit r
                            then r\<lparr>injected := injected r @ deps\<rparr> else r)) (renderMap s) \<and>
       newCalls s s' =
         map (\<lambda>(k, r). AddRenderDependencies r deps)
           (filter (\<lambda>(k, r). type r = t \<and> isRenderUnit r) (renderMap s)) \<and>
       registerRenderModule t ctor s = registerRenderModules t [ctor] s \<and>
       (\<forall>svc uid unit. getUnit svc uid = Some unit \<and> um_type unit = t \<longrightarrow>
          type (fst (createRender svc uid s')) = t \<and>
          isRenderUnit (fst (createRender svc uid s')) \<and>
          injected (fst (createRender svc uid s')) = getRenderControllersForType s t @ deps)"
proof -
  obtain h s' where run: "registerRenderModules t deps s = (h, s')"
    by (cases "registerRenderModules t deps s")
  then have s': "s' = snd (registerRenderModules t deps s)"
    by simp
  have a: "getRenderControllersForType s' t = getRenderControllersForType s t @ deps"
    by (simp add: s' getRenderControllersForType_registerRenderModules)
  have b: "renderMap s' =
         map (\<lambda>(k, r). (k, if type r = t \<and> isRenderUnit r
                            then r\<lparr>injected := injected r @ deps\<rparr> else r)) (renderMap s)"
    by (simp add: s' renderMap_registerRenderModules injectInto_def)
  have c: "newCalls s s' =
         map (\<lambda>(k, r). AddRenderDependencies r deps)
           (filter (\<lambda>(k, r). type r = t \<and> isRenderUnit r) (renderMap s))"
    by (simp add: s' newCalls_registerRenderModules injectionCalls_def)
  have d: "registerRenderModule t ctor s = registerRenderModules t [ctor] s"
    by (rule registerRenderModule_eq)
  have e: "type (fst (createRender svc uid s')) = t \<and>
          isRenderUnit (fst (createRender svc uid s')) \<and>
          injected (fst (createRender svc uid s')) = getRenderControllersForType s t @ deps"
    if "getUnit svc uid = Some unit \<and> um_type unit = t" for svc uid unit
    using that injected_builtUnit [of svc uid unit] a
    by (simp add: createRender_eq Let_def)
  show ?thesis
    unfolding run prod.case using a b c d e by blast
qed

lemma sample_table:
  "renderMap (snd (createRender sampleService ''doc1'' newManager)) =
     [(''doc1'', new_RenderUnit ''doc1'' (the (getUnit sampleService ''doc1'')) (Engine 1) (Scene 2) True)]"
  by (simp add: createRender_eq createRender_priv_eq Let_def builtUnit_def sampleService_def
      newManager_def call_def subject_next_def renderMap_def numeral_2_eq_2 new_RenderUnit_def
      getRenderControllersForType_def)

theorem registerRenderModules_injects_witness:
  "map (\<lambda>(k, r). (k, type r, injected r))
     (renderMap (snd (registerRenderModules UNIVER_SHEET [7]
        (snd (createRender sampleService ''doc1'' newManager))))) =
     [(''doc1'', UNIVER_SHEET, [7])] \<and>
   getUnit sampleService ''doc1'' =
     Some \<lparr>um_type = UNIVER_SHEET, um_mainComponent = Some (Component 12),
           um_components = [(''main'', Component 12)]\<rparr> \<and>
   injected (fst (createRender sampleService ''doc1''
        (snd (registerRenderModules UNIVER_SHEET [7] newManager)))) = [7]"
proof -
  have doc: "getUnit sampleService ''doc1'' =
     Some \<lparr>um_type = UNIVER_SHEET, um_mainComponent = Some (Component 12),
           um_components = [(''main'', Component 12)]\<rparr>"
    by (simp add: sampleService_def)
  have none: "getRenderControllersForType newManager UNIVER_SHEET = []"
    by (simp add: getRenderControllersForType_def newManager_def)
  show ?thesis
    using registerRenderModules_injects [where t = UNIVER_SHEET and deps = "[7]"
        and s = "snd (createRender sampleService ''doc1'' newManager)"]
      registerRenderModules_injects [where t = UNIVER_SHEET and deps = "[7]" and s = newManager]
      doc none
    by (simp add: case_prod_beta sample_table new_RenderUnit_def)
qed

text \<open>
  Claim C2 as stated fails on a thumbnail stub: the stub of \<^verbatim>\<open>thumb1\<close> carries the slide
  type, yet registering a module for the slide type makes no injection call and leaves the
  stub without the module.
\<close>

lemma thumb_table:
  "renderMap (snd (createRender noDocuments ''thumb1'' newManager)) =
     [(''thumb1'', thumbnail ''thumb1'' (Engine 1) (Scene 2) True)]"
  by (simp add: createRender_eq createRender_priv_eq Let_def builtUnit_def noDocuments_def
      newManager_def call_def subject_next_def renderMap_def numeral_2_eq_2)

theorem registerRenderModules_thumbnail_counterexample:
  "getRenderById (snd (createRender noDocuments ''thumb1'' newManager)) ''thumb1'' =
     Some (thumbnail ''thumb1'' (Engine 1) (Scene 2) True) \<and>
   type (thumbnail ''thumb1'' (Engine 1) (Scene 2) True) = UNIVER_SLIDE \<and>
   getRenderById
     (snd (registerRenderModules UNIVER_SLIDE [7]
        (snd (createRender noDocuments ''thumb1'' newManager)))) ''thumb1'' =
     Some (thumbnail ''thumb1'' (Engine 1) (Scene 2) True) \<and>
   with' (thumbnail ''thumb1'' (Engine 1) (Scene 2) True) 7 = None \<and>
   newCalls (snd (createRender noDocuments ''thumb1'' newManager))
     (snd (registerRenderModules UNIVER_SLIDE [7]
        (snd (createRender noDocuments ''thumb1'' newManager)))) = []"
proof -
  have look: "getRenderById (snd (createRender noDocuments ''thumb1'' newManager)) ''thumb1'' =
     Some (thumbnail ''thumb1'' (Engine 1) (Scene 2) True)"
    by (simp add: getRenderById_def thumb_table)
  show ?thesis
    by (simp add: getRenderById_registerRenderModules newCalls_registerRenderModules look
        thumb_table injectInto_def injectionCalls_def thumbnail_def with'_def)
qed

section \<open>Thumbnail stubs\<close>

text \<open>
  Claim C5. When the document registry has no model for the id, \<^verbatim>\<open>createRender\<close> returns a
  stub with \<^verbatim>\<open>isThumbNail\<close> set, no components and no main component, whose \<^verbatim>\<open>with\<close>
  answers absent for every identifier. No injection call is made while it is created, and
  in whatever later state the stub is still the entry of its id, registering modules for
  any type leaves the entry as it is and makes no injection call on it.
\<close>

theorem thumbnail_stub:
  "getUnit svc uid = None \<longrightarrow>
     (case createRender svc uid s of
        (r, s') \<Rightarrow>
          isThumbNail r \<and> components r = [] \<and> mainComponent r = None \<and>
          (\<forall>d. with' r d = None) \<and>
          (\<forall>x ds. AddRenderDependencies x ds \<notin> set (newCalls s s')) \<and>
          getRenderById s' uid = Some r \<and>
          (\<forall>s1 t deps.
             getRenderById s1 uid = Some r \<longrightarrow>
               getRenderById (snd (registerRenderModules t deps s1)) uid = Some r \<and>
               (\<forall>ds. AddRenderDependencies r ds \<notin>
                  set (newCalls s1 (snd (registerRenderModules t deps s1))))))"
proof
  assume none: "getUnit svc uid = None"
  define e where "e = Engine (nextObj s)"
  define sa where "sa = call (NewEngine e) (s\<lparr>nextObj := Suc (nextObj s)\<rparr>)"
  define r where "r = thumbnail uid e (Scene (nextObj sa)) True"
  define s' where "s' = subject_next RenderCreated (PRender r) (snd (createRender_priv svc uid e True sa))"
  have built: "builtUnit svc uid e True sa = r"
    by (simp add: builtUnit_def none r_def)
  have run: "createRender svc uid s = (r, s')"
    unfolding createRender_eq Let_def e_def [symmetric] sa_def [symmetric] built s'_def ..
  have calls: "newCalls s s' = NewEngine e # replacedCalls sa uid e @
      [NewScene (Scene (nextObj sa)) (SCENE_NAMESPACE @ uid) e 1500 1000,
       Next RenderCreated (PRender r) (\<not> isStopped s RenderCreated)]"
    by (simp add: s'_def createRender_priv_eq subject_next_def call_def newCalls_def
        buildCalls_def none comp_def) (simp add: sa_def call_def)
  have noinj: "AddRenderDependencies x ds \<notin> set (newCalls s s')" for x ds
    by (auto simp add: calls replacedCalls_def disposalProtocol_def split: option.splits if_splits)
  have look: "getRenderById s' uid = Some r"
    by (simp add: s'_def createRender_priv_eq subject_next_def call_def getRenderById_def
        renderMap_def update_conv' built)
  have stub: "\<not> isRenderUnit r" "isThumbNail r" "components r = []" "mainComponent r = None"
    "injected r = []"
    by (simp_all add: r_def thumbnail_def)
  have later: "getRenderById (snd (registerRenderModules t deps s1)) uid = Some r \<and>
      (\<forall>ds. AddRenderDependencies r ds \<notin> set (newCalls s1 (snd (registerRenderModules t deps s1))))"
    if "getRenderById s1 uid = Some r" for s1 t deps
    using that stub(1)
    by (auto simp add: getRenderById_registerRenderModules injectInto_def
        newCalls_registerRenderModules injectionCalls_def)
  show "case createRender svc uid s of
        (r, s') \<Rightarrow>
          isThumbNail r \<and> components r = [] \<and> mainComponent r = None \<and>
          (\<forall>d. with' r d = None) \<and>
          (\<forall>x ds. AddRenderDependencies x ds \<notin> set (newCalls s s')) \<and>
          getRenderById s' uid = Some r \<and>
          (\<forall>s1 t deps.
             getRenderById s1 uid = Some r \<longrightarrow>
               getRenderById (snd (registerRenderModules t deps s1)) uid = Some r \<and>
               (\<forall>ds. AddRenderDependencies r ds \<notin>
                  set (newCalls s1 (snd (registerRenderModules t deps s1)))))"
    unfolding run prod.case
    using stub noinj look later by (simp add: with'_def)
qed

theorem thumbnail_stub_witness:
  "getUnit noDocuments ''thumb1'' = None \<and>
   isThumbNail (fst (createRender noDocuments ''thumb1'' newManager)) \<and>
   with' (fst (createRender noDocuments ''thumb1'' newManager)) 7 = None \<and>
   getRenderById (snd (createRender noDocuments ''thumb1'' newManager)) ''thumb1'' =
     Some (fst (createRender noDocuments ''thumb1'' newManager)) \<and>
   getRenderById
     (snd (registerRenderModules UNIVER_SLIDE [7]
        (snd (createRender noDocuments ''thumb1'' newManager)))) ''thumb1'' =
     Some (fst (createRender noDocuments ''thumb1'' newManager))"
proof -
  have none: "getUnit noDocuments ''thumb1'' = None"
    by (simp add: noDocuments_def)
  show ?thesis
    using none thumbnail_stub [where svc = noDocuments and uid = "''thumb1''" and s = newManager]
    by (simp add: case_prod_beta)
qed

text \<open>
  Claim C10. Whatever the id, the stub carries the slide type. It is among the renderers of
  the slide type right after its creation and in every later state that still has it under
  its id; registering modules for the slide type meets it as an entry of that type, the
  injection attempt on it changes nothing, and it stays among the renderers of the slide
  type.
\<close>

theorem thumbnail_is_slide:
  "getUnit svc uid = None \<longrightarrow>
     (case createRender svc uid s of
        (r, s') \<Rightarrow>
          type r = UNIVER_SLIDE \<and> unitId r = uid \<and>
          r \<in> set (getAllRenderersOfType s' UNIVER_SLIDE) \<and>
          (\<forall>s1 deps.
             getRenderById s1 uid = Some r \<longrightarrow>
               r \<in> set (getAllRenderersOfType s1 UNIVER_SLIDE) \<and>
               tryAddRenderDependencies r deps s1 = (r, s1) \<and>
               r \<in> set (getAllRenderersOfType
                         (snd (registerRenderModules UNIVER_SLIDE deps s1)) UNIVER_SLIDE)))"
proof
  assume none: "getUnit svc uid = None"
  define e where "e = Engine (nextObj s)"
  define sa where "sa = call (NewEngine e) (s\<lparr>nextObj := Suc (nextObj s)\<rparr>)"
  define r where "r = thumbnail uid e (Scene (nextObj sa)) True"
  define s' where "s' = subject_next RenderCreated (PRender r) (snd (createRender_priv svc uid e True sa))"
  have built: "builtUnit svc uid e True sa = r"
    by (simp add: builtUnit_def none r_def)
  have run: "createRender svc uid s = (r, s')"
    unfolding createRender_eq Let_def e_def [symmetric] sa_def [symmetric] built s'_def ..
  have look: "getRenderById s' uid = Some r"
    by (simp add: s'_def createRender_priv_eq subject_next_def call_def getRenderById_def
        renderMap_def update_conv' built)
  have stub: "\<not> isRenderUnit r" "type r = UNIVER_SLIDE" "unitId r = uid"
    by (simp_all add: r_def thumbnail_def)
  have listed: "r \<in> set (getAllRenderersOfType s1 UNIVER_SLIDE)"
    if "getRenderById s1 uid = Some r" for s1
  proof -
    from that have "(uid, r) \<in> set (renderMap s1)"
      by (simp add: getRenderById_def map_of_SomeD)
    then show ?thesis
      using stub(2) by (force simp add: getAllRenderersOfType_def)
  qed
  have later: "r \<in> set (getAllRenderersOfType s1 UNIVER_SLIDE) \<and>
               tryAddRenderDependencies r deps s1 = (r, s1) \<and>
               r \<in> set (getAllRenderersOfType
                         (snd (registerRenderModules UNIVER_SLIDE deps s1)) UNIVER_SLIDE)"
    if "getRenderById s1 uid = Some r" for s1 deps
  proof -
    have "getRenderById (snd (registerRenderModules UNIVER_SLIDE deps s1)) uid = Some r"
      using that stub(1) by (simp add: getRenderById_registerRenderModules injectInto_def)
    then show ?thesis
      using listed that stub(1) by (simp add: tryAddRenderDependencies_def)
  qed
  show "case createRender svc uid s of
        (r, s') \<Rightarrow>
          type r = UNIVER_SLIDE \<and> unitId r = uid \<and>
          r \<in> set (getAllRenderersOfType s' UNIVER_SLIDE) \<and>
          (\<forall>s1 deps.
             getRenderById s1 uid = Some r \<longrightarrow>
               r \<in> set (getAllRenderersOfType s1 UNIVER_SLIDE) \<and>
               tryAddRenderDependencies r deps s1 = (r, s1) \<and>
               r \<in> set (getAllRenderersOfType
                         (snd (registerRenderModules UNIVER_SLIDE deps s1)) UNIVER_SLIDE))"
    unfolding run prod.case
    using stub listed [OF look] later by blast
qed

theorem thumbnail_is_slide_witness:
  "getUnit noDocuments ''sheet-like-id'' = None \<and>
   type (fst (createRender noDocuments ''sheet-like-id'' newManager)) = UNIVER_SLIDE \<and>
   getAllRenderersOfType (snd (createRender noDocuments ''sheet-like-id'' newManager)) UNIVER_SLIDE =
     [fst (createRender noDocuments ''sheet-like-id'' newManager)] \<and>
   getAllRenderersOfType
     (snd (registerRenderModules UNIVER_SLIDE [7]
        (snd (createRender noDocuments ''sheet-like-id'' newManager)))) UNIVER_SLIDE =
     [fst (createRender noDocuments ''sheet-like-id'' newManager)]"
proof -
  have none: "getUnit noDocuments ''sheet-like-id'' = None"
    by (simp add: noDocuments_def)
  have tab: "renderMap (snd (createRender noDocuments ''sheet-like-id'' newManager)) =
     [(''sheet-like-id'', fst (createRender noDocuments ''sheet-like-id'' newManager))]"
    by (simp add: createRender_eq createRender_priv_eq Let_def subject_next_def call_def
        renderMap_def newManager_def)
  have stub: "\<not> isRenderUnit (fst (createRender noDocuments ''sheet-like-id'' newManager))"
    by (simp add: createRender_eq Let_def builtUnit_def noDocuments_def thumbnail_def)
  have slide: "type (fst (createRender noDocuments ''sheet-like-id'' newManager)) = UNIVER_SLIDE"
    using none
      thumbnail_is_slide [where svc = noDocuments and uid = "''sheet-like-id''" and s = newManager]
    by (simp add: case_prod_beta)
  show ?thesis
    using none slide stub
    by (simp add: getAllRenderersOfType_def tab renderMap_registerRenderModules injectInto_def)
qed

section \<open>Disposal handles of registrations\<close>

lemma subseq_remove1: "subseq (remove1 d xs) xs"
  by (induction xs) auto

lemma mset_fold_remove:
  "mset (fold (\<lambda>dep arr. remove arr dep) deps xs) = mset xs - mset deps"
  by (induction deps arbitrary: xs) (simp_all add: remove_def)

lemma subseq_fold_remove:
  "subseq (fold (\<lambda>dep arr. remove arr dep) deps xs) xs"
proof (induction deps arbitrary: xs)
  case Nil
  show ?case by simp
next
  case (Cons d deps)
  have "subseq (fold (\<lambda>dep arr. remove arr dep) deps (remove1 d xs)) (remove1 d xs)"
    by (rule Cons.IH)
  then show ?case
    using subseq_remove1 [of d xs] by (simp add: remove_def)
qed

lemma handle_of_registerRenderModules:
  "fst (registerRenderModules t deps s) = toDisposable (ArrayRef (clears s) t) deps"
  using registerRenderModules_eq [of t deps s] by auto

lemma frame_registerRenderModules:
  "clears (snd (registerRenderModules t deps s)) = clears s"
  "registered (snd (registerRenderModules t deps s)) = (registered s)(t := True)"
  using registerRenderModules_eq [of t deps s] by auto

text \<open>
  Claim C8. The handle returned by a registration captures the array of the type and the
  registered descriptors, and the array holds them when the call returns. Invoked in a
  state where the type still has that array (the manager was not torn down in between),
  the handle takes one occurrence of each of its descriptors out of the type's list and
  keeps the others in their order; the lists of the other types, the table with the units
  and what they hold, the trace and every other field stay as they are, and a second
  invocation does nothing. After a teardown the captured array is no longer the type's, and
  the handle changes no list the manager can reach.
\<close>

theorem handle_dispose_removes:
  "case registerRenderModules t deps s0 of
     (h, s1) \<Rightarrow>
       clears s1 = clears s0 \<and> registered s1 t \<and>
       mset deps \<subseteq># mset (getRenderControllersForType s1 t) \<and>
       (\<forall>s. clears s = clears s0 \<and> registered s t \<longrightarrow>
          (case handle_dispose h s of
             (h', s') \<Rightarrow>
               mset (getRenderControllersForType s' t) =
                 mset (getRenderControllersForType s t) - mset deps \<and>
               subseq (getRenderControllersForType s' t) (getRenderControllersForType s t) \<and>
               (\<forall>t'. t' \<noteq> t \<longrightarrow>
                  getRenderControllersForType s' t' = getRenderControllersForType s t') \<and>
               renderMap s' = renderMap s \<and> trace s' = trace s \<and>
               s' = s\<lparr>arrayStore := arrayStore s'\<rparr> \<and>
               handle_dispose h' s' = (h', s'))) \<and>
       (\<forall>s. clears s \<noteq> clears s0 \<longrightarrow>
          (case handle_dispose h s of
             (h', s') \<Rightarrow>
               (\<forall>t'. getRenderControllersForType s' t' = getRenderControllersForType s t') \<and>
               renderMap s' = renderMap s \<and> trace s' = trace s))"
proof -
  define h where "h = toDisposable (ArrayRef (clears s0) t) deps"
  define s1 where "s1 = snd (registerRenderModules t deps s0)"
  have run: "registerRenderModules t deps s0 = (h, s1)"
    using handle_of_registerRenderModules [of t deps s0] by (simp add: h_def s1_def prod_eq_iff)
  have a: "clears s1 = clears s0" "registered s1 t"
    by (simp_all add: s1_def frame_registerRenderModules)
  have b: "mset deps \<subseteq># mset (getRenderControllersForType s1 t)"
    by (simp add: s1_def getRenderControllersForType_registerRenderModules)
  have c: "case handle_dispose h s of
             (h', s') \<Rightarrow>
               mset (getRenderControllersForType s' t) =
                 mset (getRenderControllersForType s t) - mset deps \<and>
               subseq (getRenderControllersForType s' t) (getRenderControllersForType s t) \<and>
               (\<forall>t'. t' \<noteq> t \<longrightarrow>
                  getRenderControllersForType s' t' = getRenderControllersForType s t') \<and>
               renderMap s' = renderMap s \<and> trace s' = trace s \<and>
               s' = s\<lparr>arrayStore := arrayStore s'\<rparr> \<and>
               handle_dispose h' s' = (h', s')"
    if "clears s = clears s0 \<and> registered s t" for s
    using that
    by (simp add: handle_dispose_def h_def toDisposable_def getRenderControllersForType_def
        mset_fold_remove subseq_fold_remove renderMap_def)
  have d: "case handle_dispose h s of
             (h', s') \<Rightarrow>
               (\<forall>t'. getRenderControllersForType s' t' = getRenderControllersForType s t') \<and>
               renderMap s' = renderMap s \<and> trace s' = trace s"
    if "clears s \<noteq> clears s0" for s
    using that
    by (simp add: handle_dispose_def h_def toDisposable_def getRenderControllersForType_def
        renderMap_def)
  show ?thesis
    unfolding run prod.case using a b c d by blast
qed

theorem handle_dispose_removes_witness:
  "getRenderControllersForType
     (snd (registerRenderModules UNIVER_SHEET [7]
            (snd (createRender sampleService ''doc1'' newManager)))) UNIVER_SHEET = [7] \<and>
   getRenderControllersForType
     (snd (handle_dispose
        (fst (registerRenderModules UNIVER_SHEET [7]
               (snd (createRender sampleService ''doc1'' newManager))))
        (snd (registerRenderModules UNIVER_SHEET [7]
               (snd (createRender sampleService ''doc1'' newManager)))))) UNIVER_SHEET = [] \<and>
   map (\<lambda>(k, r). (k, injected r))
     (renderMap (snd (handle_dispose
        (fst (registerRenderModules UNIVER_SHEET [7]
               (snd (createRender sampleService ''doc1'' newManager))))
        (snd (registerRenderModules UNIVER_SHEET [7]
               (snd (createRender sampleService ''doc1'' newManager))))))) = [(''doc1'', [7])]"
proof -
  define S0 where "S0 = snd (createRender sampleService ''doc1'' newManager)"
  define H where "H = fst (registerRenderModules UNIVER_SHEET [7] S0)"
  define S1 where "S1 = snd (registerRenderModules UNIVER_SHEET [7] S0)"
  have none: "getRenderControllersForType S0 UNIVER_SHEET = []"
    by (simp add: S0_def createRender_eq createRender_priv_eq Let_def subject_next_def call_def
        getRenderControllersForType_def newManager_def)
  have list1: "getRenderControllersForType S1 UNIVER_SHEET = [7]"
    by (simp add: S1_def getRenderControllersForType_registerRenderModules none)
  have tab1: "map (\<lambda>(k, r). (k, injected r)) (renderMap S1) = [(''doc1'', [7])]"
  proof -
    have doc: "getUnit sampleService ''doc1'' =
        Some \<lparr>um_type = UNIVER_SHEET, um_mainComponent = Some (Component 12),
              um_components = [(''main'', Component 12)]\<rparr>"
      by (simp add: sampleService_def)
    show ?thesis
      by (simp add: S1_def S0_def renderMap_registerRenderModules sample_table injectInto_def
          new_RenderUnit_def doc)
  qed
  have pre: "clears S1 = clears S0 \<and> registered S1 UNIVER_SHEET"
    by (simp add: S1_def frame_registerRenderModules)
  have "case handle_dispose H S1 of
          (h', s') \<Rightarrow>
            mset (getRenderControllersForType s' UNIVER_SHEET) =
              mset (getRenderControllersForType S1 UNIVER_SHEET) - mset [7] \<and>
            renderMap s' = renderMap S1"
    using pre handle_dispose_removes [where t = UNIVER_SHEET and deps = "[7]" and ?s0.0 = S0]
    by (simp add: case_prod_beta H_def [symmetric] S1_def [symmetric])
  then have "getRenderControllersForType (snd (handle_dispose H S1)) UNIVER_SHEET = [] \<and>
      renderMap (snd (handle_dispose H S1)) = renderMap S1"
    by (simp add: case_prod_beta list1)
  then show ?thesis
    using list1 tab1 unfolding H_def S1_def S0_def by simp
qed

section \<open>Teardown of the manager\<close>

lemma fold_disposeItem:
  "fold (\<lambda>(_, item). disposeItem (Some item) True) m s =
     s\<lparr>trace := trace s @ map (\<lambda>e. (e, renderMap s))
         (concat (map (\<lambda>(_, item). disposalProtocol item True (\<not> isStopped s RenderDisposed)) m))\<rparr>"
proof (induction m arbitrary: s)
  case Nil
  show ?case by simp
next
  case (Cons x m)
  obtain k item where x: "x = (k, item)"
    by (cases x)
  define s1 where "s1 = disposeItem (Some item) True s"
  have s1: "s1 = s\<lparr>trace := trace s @ map (\<lambda>e. (e, renderMap s))
      (disposalProtocol item True (\<not> isStopped s RenderDisposed))\<rparr>"
    by (simp add: s1_def disposeItem_Some)
  have "fold (\<lambda>(_, item). disposeItem (Some item) True) (x # m) s =
      fold (\<lambda>(_, item). disposeItem (Some item) True) m s1"
    by (simp add: x s1_def)
  also have "\<dots> = s1\<lparr>trace := trace s1 @ map (\<lambda>e. (e, renderMap s1))
         (concat (map (\<lambda>(_, item). disposalProtocol item True (\<not> isStopped s1 RenderDisposed)) m))\<rparr>"
    by (rule Cons.IH)
  also have "\<dots> = s\<lparr>trace := trace s @ map (\<lambda>e. (e, renderMap s))
         (concat (map (\<lambda>(_, item). disposalProtocol item True (\<not> isStopped s RenderDisposed))
            (x # m)))\<rparr>"
    by (simp add: s1 x)
  finally show ?case .
qed

lemma dispose_eq:
  "dispose s =
     s\<lparr>disposed := True, registered := (\<lambda>_. False), clears := Suc (clears s),
       mapStore := (mapStore s)(renderMapRef s := []),
       isStopped := (isStopped s)
         (CurrentRender := True, RenderCreated := True, RenderDisposed := True),
       trace := trace s @
         map (\<lambda>e. (e, renderMap s))
           (concat (map (\<lambda>(_, item). disposalProtocol item True (\<not> isStopped s RenderDisposed))
              (renderMap s))) @
         map (\<lambda>e. (e, []))
           [Complete CurrentRender (\<not> isStopped s CurrentRender),
            Complete RenderCreated (\<not> isStopped s RenderCreated),
            Complete RenderDisposed (\<not> isStopped s RenderDisposed)]\<rparr>"
  by (simp add: dispose_def Let_def fold_disposeItem renderDependencies_clear_def
      renderMap_update_def subject_complete_def call_def renderMap_def)

text \<open>
  Claim C4. \<^verbatim>\<open>dispose\<close> runs the disposal protocol, engine included, once for every entry
  of the table and in table order, then completes the three subjects. Afterwards the table
  is empty, no type has modules, the created and the disposed stream are stopped and drop
  whatever is handed to them. A second \<^verbatim>\<open>dispose\<close> makes no disposal call and publishes
  nothing: its only calls are the three \<^verbatim>\<open>complete\<close>, which the stopped subjects drop, and
  table, registry and subjects stay as they are.
\<close>

theorem dispose_tears_down:
  "newCalls s (dispose s) =
     concat (map (\<lambda>(_, item). disposalProtocol item True (\<not> isStopped s RenderDisposed))
       (renderMap s)) @
     [Complete CurrentRender (\<not> isStopped s CurrentRender),
      Complete RenderCreated (\<not> isStopped s RenderCreated),
      Complete RenderDisposed (\<not> isStopped s RenderDisposed)] \<and>
   renderMap (dispose s) = [] \<and>
   (\<forall>t. \<not> registered (dispose s) t \<and> getRenderControllersForType (dispose s) t = []) \<and>
   isStopped (dispose s) RenderCreated \<and> isStopped (dispose s) RenderDisposed \<and>
   (\<forall>v. newCalls (dispose s) (subject_next RenderCreated v (dispose s)) =
          [Next RenderCreated v False]) \<and>
   (\<forall>v. newCalls (dispose s) (subject_next RenderDisposed v (dispose s)) =
          [Next RenderDisposed v False]) \<and>
   newCalls (dispose s) (dispose (dispose s)) =
     [Complete CurrentRender False, Complete RenderCreated False, Complete RenderDisposed False] \<and>
   renderMap (dispose (dispose s)) = renderMap (dispose s) \<and>
   registered (dispose (dispose s)) = registered (dispose s) \<and>
   isStopped (dispose (dispose s)) = isStopped (dispose s)"
proof -
  have a: "newCalls s (dispose s) =
     concat (map (\<lambda>(_, item). disposalProtocol item True (\<not> isStopped s RenderDisposed))
       (renderMap s)) @
     [Complete CurrentRender (\<not> isStopped s CurrentRender),
      Complete RenderCreated (\<not> isStopped s RenderCreated),
      Complete RenderDisposed (\<not> isStopped s RenderDisposed)]"
    by (simp add: dispose_eq newCalls_def)
  have b: "renderMap (dispose s) = []" for s
    by (simp add: dispose_eq renderMap_def)
  have c: "\<not> registered (dispose s) t \<and> getRenderControllersForType (dispose s) t = []" for t
    by (simp add: dispose_eq getRenderControllersForType_def)
  have d: "isStopped (dispose s) = (isStopped s)
         (CurrentRender := True, RenderCreated := True, RenderDisposed := True)" for s
    by (simp add: dispose_eq)
  have e: "newCalls (dispose s) (subject_next sub v (dispose s)) =
      [Next sub v (\<not> isStopped (dispose s) sub)]" for sub v
    by (simp add: subject_next_def call_def newCalls_def)
  have f: "newCalls (dispose s) (dispose (dispose s)) =
     [Complete CurrentRender False, Complete RenderCreated False, Complete RenderDisposed False]"
    unfolding dispose_eq [of "dispose s"] b by (simp add: newCalls_def d)
  have g: "registered (dispose (dispose s)) = registered (dispose s)"
    by (simp add: dispose_eq)
  have h: "isStopped (dispose (dispose s)) = isStopped (dispose s)"
    by (simp add: d)
  show ?thesis
    using a b c e f g h by (simp add: d)
qed

theorem dispose_tears_down_witness:
  "newCalls (addRender ''doc1'' sampleUnit newManager)
     (dispose (addRender ''doc1'' sampleUnit newManager)) =
     [ComponentDispose (Component 12), ComponentDispose (Component 13), SceneDispose (Scene 11),
      ItemDispose sampleUnit, EngineDispose (Engine 10),
      Next RenderDisposed (PString ''doc1'') True,
      Complete CurrentRender True, Complete RenderCreated True, Complete RenderDisposed True] \<and>
   renderMap (dispose (addRender ''doc1'' sampleUnit newManager)) = []"
proof -
  have tab: "renderMap (addRender ''doc1'' sampleUnit newManager) = [(''doc1'', sampleUnit)]"
    by (simp add: addRender_def addRenderUnit_def newManager_def renderMap_def renderMap_update_def)
  have open_: "isStopped (addRender ''doc1'' sampleUnit newManager) = (\<lambda>_. False)"
    by (simp add: addRender_def addRenderUnit_def newManager_def renderMap_update_def)
  show ?thesis
    using dispose_tears_down [of "addRender ''doc1'' sampleUnit newManager"]
    by (simp add: tab open_ disposalProtocol_def) (simp add: sampleUnit_def)
qed

section \<open>The table handed out by getRenderAll\<close>

text \<open>
  Claim C6 as stated fails: the result of \<^verbatim>\<open>getRenderAll\<close> on a new manager is empty when
  it is returned, and holds the unit \<^verbatim>\<open>thumb1\<close> once \<^verbatim>\<open>createRender\<close> has run.
\<close>

theorem getRenderAll_snapshot_counterexample:
  "mapStore newManager (getRenderAll newManager) = [] \<and>
   mapStore (snd (createRender noDocuments ''thumb1'' newManager)) (getRenderAll newManager) =
     [(''thumb1'', thumbnail ''thumb1'' (Engine 1) (Scene 2) True)]"
proof -
  have same: "renderMapRef (snd (createRender noDocuments ''thumb1'' newManager)) =
      renderMapRef newManager"
    by (simp add: createRender_eq createRender_priv_eq Let_def subject_next_def call_def)
  have "mapStore (snd (createRender noDocuments ''thumb1'' newManager)) (getRenderAll newManager) =
      renderMap (snd (createRender noDocuments ''thumb1'' newManager))"
    by (simp add: getRenderAll_def renderMap_def same)
  moreover have "mapStore newManager (getRenderAll newManager) = []"
    by (simp add: newManager_def)
  ultimately show ?thesis
    by (simp add: thumb_table)
qed

text \<open>
  Claim C6, as amended. \<^verbatim>\<open>getRenderAll\<close> returns the manager's own table: the lookups
  \<^verbatim>\<open>getRenderById\<close> and \<^verbatim>\<open>has\<close> read the very object it returns, every call returns the
  same object, and a result returned earlier shows each later \<^verbatim>\<open>addRender\<close>,
  \<^verbatim>\<open>removeRender\<close> and \<^verbatim>\<open>createRender\<close>.
\<close>

theorem getRenderAll_live:
  "getRenderById s uid' = map_of (mapStore s (getRenderAll s)) uid' \<and>
   has s uid' = (uid' \<in> fst ` set (mapStore s (getRenderAll s))) \<and>
   getRenderAll (addRender uid item s) = getRenderAll s \<and>
   mapStore (addRender uid item s) (getRenderAll s) =
     AList.update uid item (mapStore s (getRenderAll s)) \<and>
   getRenderAll (removeRender uid s) = getRenderAll s \<and>
   mapStore (removeRender uid s) (getRenderAll s) = AList.delete uid (mapStore s (getRenderAll s)) \<and>
   (case createRender svc uid s of
      (r, s') \<Rightarrow>
        getRenderAll s' = getRenderAll s \<and>
        mapStore s' (getRenderAll s) = AList.update uid r (mapStore s (getRenderAll s)))"
proof -
  have rm: "removeRender uid s =
      renderMap_update (AList.delete uid)
        (s\<lparr>trace := trace s @ map (\<lambda>e. (e, renderMap s))
           (case map_of (renderMap s) uid of None \<Rightarrow> []
            | Some item \<Rightarrow> disposalProtocol item True (\<not> isStopped s RenderDisposed))\<rparr>)"
    by (simp add: removeRender_def disposeItem_Some split: option.splits)
  show ?thesis
    unfolding rm
    by (simp add: getRenderById_def has_def getRenderAll_def addRender_def addRenderUnit_def
        renderMap_update_def renderMap_def createRender_eq createRender_priv_eq Let_def
        subject_next_def call_def)
qed

theorem getRenderAll_live_witness:
  "mapStore (addRender ''doc1'' sampleUnit newManager) (getRenderAll newManager) =
     [(''doc1'', sampleUnit)] \<and>
   mapStore (removeRender ''doc1'' (addRender ''doc1'' sampleUnit newManager))
     (getRenderAll (addRender ''doc1'' sampleUnit newManager)) = []"
proof -
  have empty: "mapStore newManager (getRenderAll newManager) = []"
    by (simp add: newManager_def)
  have same: "getRenderAll (addRender ''doc1'' sampleUnit newManager) = getRenderAll newManager"
    using getRenderAll_live [of newManager _ "''doc1''" sampleUnit] by simp
  show ?thesis
    using getRenderAll_live [of newManager _ "''doc1''" sampleUnit]
      getRenderAll_live [of "addRender ''doc1'' sampleUnit newManager" _ "''doc1''"]
    by (simp add: empty same)
qed

end
